theory Spec2Isabelle
  imports Main
begin

section \<open>JavaScript values, thrown errors and the wall clock\<close>

text \<open>
  The engines and the factory are written in JavaScript and check the dynamic type of
  their arguments (\<^verbatim>\<open>typeof pattern !== 'string'\<close>), so arguments are values of a
  small universe of JavaScript values. Strings are sequences of code units; numbers that
  occur here are integers.
\<close>

datatype jsval = Undefined | Null | Bool bool | Num int | Str string | Obj

text \<open>A thrown error: the name of its constructor and its message.\<close>

datatype exn = Exn (exn_name: string) (exn_message: string)

definition Error :: "string \<Rightarrow> exn" where
  "Error msg = Exn ''Error'' msg"

text \<open>A parameter with the default \<^verbatim>\<open>flags = ''\<close> takes it when the argument is undefined.\<close>

definition default_arg :: "jsval \<Rightarrow> jsval \<Rightarrow> jsval" where
  "default_arg v d = (if v = Undefined then d else v)"

text \<open>
  \<^verbatim>\<open>Date.now()\<close> is read through a clock \<open>now\<close>: \<open>now k\<close> is what the \<open>k\<close>-th call
  within one invocation returns (milliseconds), the call that sets \<^verbatim>\<open>startTime\<close> being
  call \<open>0\<close>. The \<^verbatim>\<open>timestamp\<close> field of the result objects is left out.
\<close>

type_synonym clock = "nat \<Rightarrow> int"

section \<open>The platform's regular expressions\<close>

text \<open>
  \<^verbatim>\<open>new RegExp(pattern, flags)\<close> belongs to the platform, not to this program: it is a
  parameter. Compiling either throws (a SyntaxError) or gives a matcher, which tried on a
  subject at an index fails, succeeds, or throws. A success tells how many code units the
  match consumes (a match never ends before it starts, so the end index is the index plus
  that number) and the captures. \<^verbatim>\<open>RegExp.prototype.exec\<close> and
  \<^verbatim>\<open>String.prototype.replace\<close> are written out over that matcher as ECMAScript
  defines them; a search advances through the subject by one code unit.
\<close>

record match_state =
  consumed :: nat
  captures :: "string option list"
  namedCaptures :: "(string \<times> string option) list option"

datatype step = Failure | Success match_state | Throws exn

type_synonym matcher = "string \<Rightarrow> nat \<Rightarrow> step"

type_synonym RegExp_host = "string \<Rightarrow> string \<Rightarrow> exn + matcher"

record RegExp =
  re_matcher :: matcher
  re_flags :: string

text \<open>The array \<^verbatim>\<open>exec\<close> returns: \<^verbatim>\<open>match[0]\<close>, \<^verbatim>\<open>match.slice(1)\<close>, index, groups, input.\<close>

record match_array =
  a_0 :: string
  a_rest :: "string option list"
  a_index :: nat
  a_groups :: "(string \<times> string option) list option"
  a_input :: string

definition substring :: "string \<Rightarrow> int \<Rightarrow> int \<Rightarrow> string" where
  "substring s a b =
     (let len = int (length s);
          a' = min (max a 0) len;
          b' = min (max b 0) len;
          from = min a' b';
          to = max a' b'
      in take (nat (to - from)) (drop (nat from) s))"

function regexp_scan :: "matcher \<Rightarrow> bool \<Rightarrow> string \<Rightarrow> nat \<Rightarrow> exn + (nat \<times> match_state) option" where
  "regexp_scan m sticky S lastIndex =
     (if lastIndex > length S then Inr None
      else case m S lastIndex of
             Throws e \<Rightarrow> Inl e
           | Success r \<Rightarrow> Inr (Some (lastIndex, r))
           | Failure \<Rightarrow> if sticky then Inr None else regexp_scan m sticky S (lastIndex + 1))"
  by pat_completeness auto
termination
  by (relation "measure (\<lambda>(m, sticky, S, i). length S + 1 - i)") auto

text \<open>
  \<open>RegExp_exec R S lastIndex\<close> is \<^verbatim>\<open>R.exec(S)\<close> with \<^verbatim>\<open>R.lastIndex\<close> passed in and
  returned: either an exception, or the match (or null) and the new \<^verbatim>\<open>lastIndex\<close>.
\<close>

definition endIndex :: "nat \<Rightarrow> match_state \<Rightarrow> nat" where
  "endIndex i r = i + consumed r"

definition RegExp_exec :: "RegExp \<Rightarrow> string \<Rightarrow> nat \<Rightarrow> exn + (match_array option \<times> nat)" where
  "RegExp_exec R S lastIndex =
     (let global = (CHR ''g'' \<in> set (re_flags R));
          sticky = (CHR ''y'' \<in> set (re_flags R));
          start = (if global \<or> sticky then lastIndex else 0)
      in case regexp_scan (re_matcher R) sticky S start of
           Inl e \<Rightarrow> Inl e
         | Inr None \<Rightarrow> Inr (None, if global \<or> sticky then 0 else lastIndex)
         | Inr (Some (i, r)) \<Rightarrow>
             Inr (Some \<lparr>a_0 = substring S (int i) (int (endIndex i r)), a_rest = captures r,
                        a_index = i, a_groups = namedCaptures r, a_input = S\<rparr>,
                  if global \<or> sticky then endIndex i r else lastIndex))"

subsection \<open>\<^verbatim>\<open>String.prototype.replace\<close> with a regular expression\<close>

text \<open>
  \<open>GetSubstitution\<close> expands the replacement template: \<^verbatim>\<open>$$\<close>, \<^verbatim>\<open>$&\<close>, the text
  before and after the match, \<^verbatim>\<open>$n\<close>, \<^verbatim>\<open>$nn\<close> and \<^verbatim>\<open>$<name>\<close>.
\<close>

definition is_digit :: "char \<Rightarrow> bool" where
  "is_digit c = (c \<in> set ''0123456789'')"

definition digit_value :: "char \<Rightarrow> nat" where
  "digit_value c = of_char c - 48"

fun split_at_gt :: "string \<Rightarrow> (string \<times> string) option" where
  "split_at_gt [] = None"
| "split_at_gt (c # cs) =
     (if c = CHR ''>'' then Some ([], cs)
      else case split_at_gt cs of None \<Rightarrow> None | Some (name, after) \<Rightarrow> Some (c # name, after))"

definition capture_text :: "string option \<Rightarrow> string" where
  "capture_text capture = (case capture of None \<Rightarrow> [] | Some s \<Rightarrow> s)"

lemma split_at_gt_shorter: "split_at_gt cs = Some (name, after) \<Longrightarrow> length after < length cs"
  by (induction cs arbitrary: name after) (auto split: if_splits option.splits)

function GetSubstitution ::
  "string \<Rightarrow> string \<Rightarrow> nat \<Rightarrow> string option list \<Rightarrow> (string \<times> string option) list option
     \<Rightarrow> string \<Rightarrow> string" where
  "GetSubstitution matched str position caps namedCaps [] = []"
| "GetSubstitution matched str position caps namedCaps (c # rest) =
     (if c \<noteq> CHR ''$'' then c # GetSubstitution matched str position caps namedCaps rest
      else case rest of
        [] \<Rightarrow> ''$''
      | d # rest1 \<Rightarrow>
          if d = CHR ''$'' then CHR ''$'' # GetSubstitution matched str position caps namedCaps rest1
          else if d = CHR 0x60 then take position str @ GetSubstitution matched str position caps namedCaps rest1
          else if d = CHR ''&'' then matched @ GetSubstitution matched str position caps namedCaps rest1
          else if d = CHR 0x27
          then drop (min (position + length matched) (length str)) str
               @ GetSubstitution matched str position caps namedCaps rest1
          else if is_digit d then
            (case rest1 of
               d2 # rest2 \<Rightarrow>
                 if is_digit d2 \<and> 10 * digit_value d + digit_value d2 \<le> length caps
                 then (if 1 \<le> 10 * digit_value d + digit_value d2
                       then capture_text (caps ! (10 * digit_value d + digit_value d2 - 1))
                       else [c, d, d2])
                      @ GetSubstitution matched str position caps namedCaps rest2
                 else (if 1 \<le> digit_value d \<and> digit_value d \<le> length caps
                       then capture_text (caps ! (digit_value d - 1))
                       else [c, d])
                      @ GetSubstitution matched str position caps namedCaps rest1
             | [] \<Rightarrow>
                 (if 1 \<le> digit_value d \<and> digit_value d \<le> length caps
                  then capture_text (caps ! (digit_value d - 1))
                  else [c, d]))
          else if d = CHR ''<'' then
            (case namedCaps of
               None \<Rightarrow> ''$<'' @ GetSubstitution matched str position caps namedCaps rest1
             | Some groups \<Rightarrow>
                 (case split_at_gt rest1 of
                    None \<Rightarrow> ''$<'' @ GetSubstitution matched str position caps namedCaps rest1
                  | Some (groupName, after) \<Rightarrow>
                      (case map_of groups groupName of
                         None \<Rightarrow> []
                       | Some capture \<Rightarrow> capture_text capture)
                      @ GetSubstitution matched str position caps namedCaps after))
          else CHR ''$'' # GetSubstitution matched str position caps namedCaps rest)"
  by pat_completeness auto
termination
  by (relation "measure (\<lambda>(matched, str, position, caps, namedCaps, template). length template)")
     (auto dest: split_at_gt_shorter)

lemma regexp_scan_found:
  "regexp_scan m sticky S i = Inr (Some (j, r)) \<Longrightarrow> i \<le> j \<and> j \<le> length S \<and> m S j = Success r"
proof (induction m sticky S i rule: regexp_scan.induct)
  case (1 m sticky S lastIndex)
  show ?case
  proof (cases "m S lastIndex")
    case Failure
    with "1.prems" have ns: "\<not> sticky" and le: "\<not> lastIndex > length S"
      by (auto split: if_splits)
    with "1.prems" Failure have "regexp_scan m sticky S (lastIndex + 1) = Inr (Some (j, r))"
      by simp
    with "1.IH"[OF le Failure ns] show ?thesis by simp
  next
    case (Success x)
    with "1.prems" show ?thesis by (auto split: if_splits)
  next
    case (Throws e)
    with "1.prems" show ?thesis by (auto split: if_splits)
  qed
qed

declare regexp_scan.simps [simp del]

lemma RegExp_exec_Some:
  assumes "RegExp_exec R S lastIndex = Inr (Some a, lastIndex1)"
  obtains i r where
    "regexp_scan (re_matcher R) (CHR ''y'' \<in> set (re_flags R)) S
       (if CHR ''g'' \<in> set (re_flags R) \<or> CHR ''y'' \<in> set (re_flags R) then lastIndex else 0)
     = Inr (Some (i, r))"
    and "a = \<lparr>a_0 = substring S (int i) (int (endIndex i r)), a_rest = captures r,
                a_index = i, a_groups = namedCaptures r, a_input = S\<rparr>"
    and "lastIndex1 = (if CHR ''g'' \<in> set (re_flags R) \<or> CHR ''y'' \<in> set (re_flags R)
                       then endIndex i r else lastIndex)"
proof -
  let ?sc = "regexp_scan (re_matcher R) (CHR ''y'' \<in> set (re_flags R)) S
       (if CHR ''g'' \<in> set (re_flags R) \<or> CHR ''y'' \<in> set (re_flags R) then lastIndex else 0)"
  show thesis
  proof (cases ?sc)
    case (Inl e)
    with assms show ?thesis by (simp add: RegExp_exec_def)
  next
    case (Inr x)
    show ?thesis
    proof (cases x)
      case None
      with Inr assms show ?thesis by (simp add: RegExp_exec_def)
    next
      case (Some q)
      obtain i r where q: "q = (i, r)" by (cases q)
      from Inr Some q have sc: "?sc = Inr (Some (i, r))" by simp
      from assms have "a = \<lparr>a_0 = substring S (int i) (int (endIndex i r)), a_rest = captures r,
                a_index = i, a_groups = namedCaptures r, a_input = S\<rparr>"
        and "lastIndex1 = (if CHR ''g'' \<in> set (re_flags R) \<or> CHR ''y'' \<in> set (re_flags R)
                       then endIndex i r else lastIndex)"
        unfolding RegExp_exec_def Let_def sc by simp_all
      with sc that show ?thesis by blast
    qed
  qed
qed

lemma RegExp_exec_global:
  assumes "RegExp_exec R S lastIndex = Inr (Some a, lastIndex1)"
    and "CHR ''g'' \<in> set (re_flags R)"
  shows "lastIndex \<le> a_index a" and "a_index a \<le> length S" and "a_index a \<le> lastIndex1"
    and "a_0 a \<noteq> [] \<Longrightarrow> a_index a < lastIndex1"
    and "a_0 a = substring S (int (a_index a)) (int lastIndex1)" and "a_input a = S"
proof -
  from assms(1) obtain i r where
    scan: "regexp_scan (re_matcher R) (CHR ''y'' \<in> set (re_flags R)) S
       (if CHR ''g'' \<in> set (re_flags R) \<or> CHR ''y'' \<in> set (re_flags R) then lastIndex else 0)
     = Inr (Some (i, r))"
    and a: "a = \<lparr>a_0 = substring S (int i) (int (endIndex i r)), a_rest = captures r,
                  a_index = i, a_groups = namedCaptures r, a_input = S\<rparr>"
    and l: "lastIndex1 = (if CHR ''g'' \<in> set (re_flags R) \<or> CHR ''y'' \<in> set (re_flags R)
                       then endIndex i r else lastIndex)"
    by (rule RegExp_exec_Some)
  from regexp_scan_found[OF scan] assms(2) have il: "lastIndex \<le> i" "i \<le> length S" by simp_all
  from l assms(2) have l': "lastIndex1 = i + consumed r" by (simp add: endIndex_def)
  from a have ai: "a_index a = i" and a0: "a_0 a = substring S (int i) (int (i + consumed r))"
    and inp: "a_input a = S"
    by (simp_all add: endIndex_def)
  show "lastIndex \<le> a_index a" and "a_index a \<le> length S" and "a_index a \<le> lastIndex1"
    and "a_0 a = substring S (int (a_index a)) (int lastIndex1)" and "a_input a = S"
    using il l' ai a0 inp by simp_all
  show "a_0 a \<noteq> [] \<Longrightarrow> a_index a < lastIndex1"
    using l' ai a0 by (cases "consumed r = 0") (simp_all add: substring_def Let_def)
qed

text \<open>The loop of \<^verbatim>\<open>RegExp.prototype[Symbol.replace]\<close> that collects the results.\<close>

function replace_results :: "RegExp \<Rightarrow> string \<Rightarrow> nat \<Rightarrow> exn + match_array list" where
  "replace_results rx S lastIndex =
     (case RegExp_exec rx S lastIndex of
        Inl e \<Rightarrow> Inl e
      | Inr (None, _) \<Rightarrow> Inr []
      | Inr (Some result, lastIndex1) \<Rightarrow>
          if CHR ''g'' \<notin> set (re_flags rx) then Inr [result]
          else case replace_results rx S (if a_0 result = [] then lastIndex1 + 1 else lastIndex1) of
                 Inl e \<Rightarrow> Inl e
               | Inr results \<Rightarrow> Inr (result # results))"
  by pat_completeness auto
termination
  apply (relation "measure (\<lambda>(rx, S, lastIndex). length S + 1 - lastIndex)")
   apply simp
  subgoal for rx S lastIndex x2 x1 lastIndex1 result
    using RegExp_exec_global(1,2,3,4)[of rx S lastIndex result lastIndex1]
    by auto
  done

fun replace_accumulate :: "string \<Rightarrow> string \<Rightarrow> match_array list \<Rightarrow> string \<Rightarrow> nat \<Rightarrow> string" where
  "replace_accumulate S replaceValue [] accumulatedResult nextSourcePosition =
     (if nextSourcePosition \<ge> length S then accumulatedResult
      else accumulatedResult @ drop nextSourcePosition S)"
| "replace_accumulate S replaceValue (result # results) accumulatedResult nextSourcePosition =
     (let matched = a_0 result;
          position = min (a_index result) (length S);
          replacement = GetSubstitution matched S position (a_rest result) (a_groups result) replaceValue
      in if position \<ge> nextSourcePosition
         then replace_accumulate S replaceValue results
                (accumulatedResult @ take (position - nextSourcePosition) (drop nextSourcePosition S)
                   @ replacement)
                (position + length matched)
         else replace_accumulate S replaceValue results accumulatedResult nextSourcePosition)"

text \<open>\<^verbatim>\<open>S.replace(rx, replaceValue)\<close> for a regular expression just compiled (\<^verbatim>\<open>lastIndex\<close> 0).\<close>

definition String_replace :: "string \<Rightarrow> RegExp \<Rightarrow> string \<Rightarrow> exn + string" where
  "String_replace S rx replaceValue =
     (case replace_results rx S 0 of
        Inl e \<Rightarrow> Inl e
      | Inr results \<Rightarrow> Inr (replace_accumulate S replaceValue results [] 0))"

section \<open>The result objects\<close>

record js_error =
  e_message :: string
  e_type :: string
  e_operation :: string

record match =
  m_fullMatch :: string
  m_index :: int
  m_length :: int
  m_groups :: "string option list"
  m_namedGroups :: "(string \<times> string option) list"
  m_input :: string

record replace_result =
  rr_success :: bool
  rr_engine :: string
  rr_pattern :: jsval
  rr_flags :: jsval
  rr_text :: jsval
  rr_replacement :: jsval
  rr_result :: jsval
  rr_error :: "js_error option"

record performance =
  timeoutMs :: int
  maxIterations :: nat

record result =
  r_success :: bool
  r_engine :: string
  r_pattern :: jsval
  r_flags :: jsval
  r_text :: jsval
  r_matches :: "match list"
  r_error :: "js_error option"

text \<open>\<^verbatim>\<open>new Set(array)\<close> spread back into an array: the elements in insertion order.\<close>

fun Set_add_all :: "'a list \<Rightarrow> 'a list \<Rightarrow> 'a list" where
  "Set_add_all seen [] = seen"
| "Set_add_all seen (x # xs) = Set_add_all (if x \<in> set seen then seen else seen @ [x]) xs"

definition new_Set :: "'a list \<Rightarrow> 'a list" where
  "new_Set xs = Set_add_all [] xs"

section \<open>The JavaScript engine (jsEngine.js)\<close>

definition JS_ENGINE_NAME :: string where
  "JS_ENGINE_NAME = ''JavaScript''"

definition JS_SUPPORTED_FLAGS :: string where
  "JS_SUPPORTED_FLAGS = ''igmsuy''"

definition MAX_ITERATIONS :: nat where
  "MAX_ITERATIONS = 10000"

definition JS_TIMEOUT_MS :: int where
  "JS_TIMEOUT_MS = 5000"

definition js_validateAndSanitizeFlags :: "jsval \<Rightarrow> exn + string" where
  "js_validateAndSanitizeFlags flags0 =
     (case default_arg flags0 (Str '''') of
        Str flags \<Rightarrow>
          (let flagArray = flags;
               invalidFlags = filter (\<lambda>flag. flag \<notin> set JS_SUPPORTED_FLAGS) flagArray
           in if length invalidFlags > 0
              then Inl (Error (''Unsupported flags for JavaScript engine: '' @ invalidFlags
                               @ ''. Supported: '' @ JS_SUPPORTED_FLAGS))
              else Inr (new_Set flagArray))
      | _ \<Rightarrow> Inl (Error ''Flags must be a string''))"

definition js_createResult ::
  "bool \<Rightarrow> jsval \<Rightarrow> jsval \<Rightarrow> jsval \<Rightarrow> match list \<Rightarrow> js_error option \<Rightarrow> result" where
  "js_createResult success pattern flags text matches error =
     \<lparr>r_success = success, r_engine = JS_ENGINE_NAME, r_pattern = pattern, r_flags = flags,
      r_text = text, r_matches = matches, r_error = error\<rparr>"

definition createError :: "exn \<Rightarrow> string \<Rightarrow> js_error" where
  "createError error operation =
     \<lparr>e_message = exn_message error, e_type = exn_name error, e_operation = operation\<rparr>"

definition js_formatMatch :: "match_array \<Rightarrow> match" where
  "js_formatMatch match =
     \<lparr>m_fullMatch = a_0 match, m_index = int (a_index match), m_length = int (length (a_0 match)),
      m_groups = a_rest match,
      m_namedGroups = (case a_groups match of None \<Rightarrow> [] | Some g \<Rightarrow> g),
      m_input = a_input match\<rparr>"

definition js_test_try :: "RegExp_host \<Rightarrow> clock \<Rightarrow> jsval \<Rightarrow> jsval \<Rightarrow> jsval \<Rightarrow> exn + result" where
  "js_test_try RegExp now pattern text flags =
     (case pattern of
        Str p \<Rightarrow>
          (case text of
             Str t \<Rightarrow>
               (case js_validateAndSanitizeFlags flags of
                  Inl e \<Rightarrow> Inl e
                | Inr sanitizedFlags \<Rightarrow>
                    (case RegExp p sanitizedFlags of
                       Inl syntaxError \<Rightarrow>
                         Inr (js_createResult False pattern (Str sanitizedFlags) text []
                                (Some (createError syntaxError ''pattern compilation'')))
                     | Inr m \<Rightarrow>
                         (case (case RegExp_exec \<lparr>re_matcher = m, re_flags = sanitizedFlags\<rparr> t 0 of
                                  Inl e \<Rightarrow> Inl e
                                | Inr (match, _) \<Rightarrow>
                                    if now 1 - now 0 > JS_TIMEOUT_MS
                                    then Inl (Error ''Regex execution timeout - pattern may be too complex'')
                                    else Inr match) of
                            Inl execError \<Rightarrow>
                              Inr (js_createResult False pattern (Str sanitizedFlags) text []
                                     (Some (createError execError ''pattern execution'')))
                          | Inr None \<Rightarrow>
                              Inr (js_createResult False pattern (Str sanitizedFlags) text [] None)
                          | Inr (Some match) \<Rightarrow>
                              Inr (js_createResult True pattern (Str sanitizedFlags) text
                                     [js_formatMatch match] None))))
           | _ \<Rightarrow> Inl (Error ''Text must be a string''))
      | _ \<Rightarrow> Inl (Error ''Pattern must be a string''))"

definition js_test :: "RegExp_host \<Rightarrow> clock \<Rightarrow> jsval \<Rightarrow> jsval \<Rightarrow> jsval \<Rightarrow> result" where
  "js_test RegExp now pattern text flags0 =
     (let flags = default_arg flags0 (Str '''') in
      case js_test_try RegExp now pattern text flags of
        Inr r \<Rightarrow> r
      | Inl error \<Rightarrow>
          js_createResult False pattern flags text [] (Some (createError error ''test operation'')))"

text \<open>
  The \<^verbatim>\<open>while ((match = regex.exec(text)) !== null)\<close> loop of \<^verbatim>\<open>findAll\<close>, with
  \<^verbatim>\<open>regex.lastIndex\<close>, \<^verbatim>\<open>iterationCount\<close> and \<^verbatim>\<open>matches\<close> as its state. It returns
  the matches collected and how the loop was left: normally, by an exception of
  \<^verbatim>\<open>exec\<close>, or by one of the two \<^verbatim>\<open>throw\<close> statements in its body. \<open>thrown\<close> is the
  error that the \<^verbatim>\<open>catch\<close> around the loop receives.
\<close>

datatype loop_exit = Completed | ExecThrew exn | TooManyMatches | TimedOut

definition thrown :: "loop_exit \<Rightarrow> exn option" where
  "thrown exit =
     (case exit of
        Completed \<Rightarrow> None
      | ExecThrew e \<Rightarrow> Some e
      | TooManyMatches \<Rightarrow> Some (Error ''Too many matches found (>10000). Pattern may be too broad.'')
      | TimedOut \<Rightarrow> Some (Error ''Regex execution timeout - pattern may be too complex''))"

function js_findAll_loop ::
  "RegExp \<Rightarrow> string \<Rightarrow> clock \<Rightarrow> nat \<Rightarrow> nat \<Rightarrow> match list \<Rightarrow> match list \<times> loop_exit" where
  "js_findAll_loop regex text now lastIndex iterationCount matches =
     (case RegExp_exec regex text lastIndex of
        Inl e \<Rightarrow> (matches, ExecThrew e)
      | Inr (None, _) \<Rightarrow> (matches, Completed)
      | Inr (Some match, lastIndex1) \<Rightarrow>
          if iterationCount + 1 > MAX_ITERATIONS then (matches, TooManyMatches)
          else if now (iterationCount + 1) - now 0 > JS_TIMEOUT_MS then (matches, TimedOut)
          else if (if a_index match = lastIndex1 then lastIndex1 + 1 else lastIndex1) > length text
          then (matches @ [js_formatMatch match], Completed)
          else js_findAll_loop regex text now
                 (if a_index match = lastIndex1 then lastIndex1 + 1 else lastIndex1)
                 (iterationCount + 1) (matches @ [js_formatMatch match]))"
  by pat_completeness auto
termination
  by (relation "measure (\<lambda>(regex, text, now, lastIndex, iterationCount, matches).
                   MAX_ITERATIONS + 1 - iterationCount)") auto

definition js_findAll_try :: "RegExp_host \<Rightarrow> clock \<Rightarrow> jsval \<Rightarrow> jsval \<Rightarrow> jsval \<Rightarrow> exn + result" where
  "js_findAll_try RegExp now pattern text flags =
     (case pattern of
        Str p \<Rightarrow>
          (case text of
             Str t \<Rightarrow>
               (case js_validateAndSanitizeFlags flags of
                  Inl e \<Rightarrow> Inl e
                | Inr sanitizedFlags \<Rightarrow>
                    (let globalFlags = (if CHR ''g'' \<in> set sanitizedFlags then sanitizedFlags
                                        else sanitizedFlags @ ''g'')
                     in case RegExp p globalFlags of
                          Inl syntaxError \<Rightarrow>
                            Inr (js_createResult False pattern (Str globalFlags) text []
                                   (Some (createError syntaxError ''pattern compilation'')))
                        | Inr m \<Rightarrow>
                            (case js_findAll_loop \<lparr>re_matcher = m, re_flags = globalFlags\<rparr> t now 0 0 [] of
                               (matches, exit) \<Rightarrow>
                                 (case thrown exit of
                                    Some execError \<Rightarrow>
                                      if length matches > 0
                                      then Inr (js_createResult True pattern (Str globalFlags) text matches
                                                  (Some (createError execError
                                                     ''partial execution - some matches found'')))
                                      else Inr (js_createResult False pattern (Str globalFlags) text []
                                                  (Some (createError execError ''pattern execution'')))
                                  | None \<Rightarrow>
                                      Inr (js_createResult (length matches > 0) pattern (Str globalFlags)
                                             text matches None)))))
           | _ \<Rightarrow> Inl (Error ''Text must be a string''))
      | _ \<Rightarrow> Inl (Error ''Pattern must be a string''))"

definition js_findAll :: "RegExp_host \<Rightarrow> clock \<Rightarrow> jsval \<Rightarrow> jsval \<Rightarrow> jsval \<Rightarrow> result" where
  "js_findAll RegExp now pattern text flags0 =
     (let flags = default_arg flags0 (Str '''') in
      case js_findAll_try RegExp now pattern text flags of
        Inr r \<Rightarrow> r
      | Inl error \<Rightarrow>
          js_createResult False pattern flags text [] (Some (createError error ''findAll operation'')))"

definition js_replace_try ::
  "RegExp_host \<Rightarrow> clock \<Rightarrow> jsval \<Rightarrow> jsval \<Rightarrow> jsval \<Rightarrow> jsval \<Rightarrow> exn + replace_result" where
  "js_replace_try RegExp now pattern text replacement flags =
     (case pattern of
        Str p \<Rightarrow>
          (case text of
             Str t \<Rightarrow>
               (case replacement of
                  Str rep \<Rightarrow>
                    (case js_validateAndSanitizeFlags flags of
                       Inl e \<Rightarrow> Inl e
                     | Inr sanitizedFlags \<Rightarrow>
                         (case RegExp p sanitizedFlags of
                            Inl syntaxError \<Rightarrow>
                              Inr \<lparr>rr_success = False, rr_engine = JS_ENGINE_NAME, rr_pattern = pattern,
                                   rr_flags = Str sanitizedFlags, rr_text = text,
                                   rr_replacement = replacement, rr_result = text,
                                   rr_error = Some (createError syntaxError ''pattern compilation'')\<rparr>
                          | Inr m \<Rightarrow>
                              (case (case String_replace t \<lparr>re_matcher = m, re_flags = sanitizedFlags\<rparr> rep of
                                       Inl e \<Rightarrow> Inl e
                                     | Inr result \<Rightarrow>
                                         if now 1 - now 0 > JS_TIMEOUT_MS
                                         then Inl (Error ''Regex replacement timeout - pattern may be too complex'')
                                         else Inr result) of
                                 Inl replaceError \<Rightarrow>
                                   Inr \<lparr>rr_success = False, rr_engine = JS_ENGINE_NAME, rr_pattern = pattern,
                                        rr_flags = Str sanitizedFlags, rr_text = text,
                                        rr_replacement = replacement, rr_result = text,
                                        rr_error = Some (createError replaceError ''replacement execution'')\<rparr>
                               | Inr result \<Rightarrow>
                                   Inr \<lparr>rr_success = True, rr_engine = JS_ENGINE_NAME, rr_pattern = pattern,
                                        rr_flags = Str sanitizedFlags, rr_text = text,
                                        rr_replacement = replacement, rr_result = Str result,
                                        rr_error = None\<rparr>)))
                | _ \<Rightarrow> Inl (Error ''Replacement must be a string''))
           | _ \<Rightarrow> Inl (Error ''Text must be a string''))
      | _ \<Rightarrow> Inl (Error ''Pattern must be a string''))"

definition js_replace ::
  "RegExp_host \<Rightarrow> clock \<Rightarrow> jsval \<Rightarrow> jsval \<Rightarrow> jsval \<Rightarrow> jsval \<Rightarrow> replace_result" where
  "js_replace RegExp now pattern text replacement flags0 =
     (let flags = default_arg flags0 (Str '''') in
      case js_replace_try RegExp now pattern text replacement flags of
        Inr r \<Rightarrow> r
      | Inl error \<Rightarrow>
          \<lparr>rr_success = False, rr_engine = JS_ENGINE_NAME, rr_pattern = pattern, rr_flags = flags,
           rr_text = text, rr_replacement = replacement, rr_result = text,
           rr_error = Some (createError error ''replace operation'')\<rparr>)"

text \<open>The limits that \<^verbatim>\<open>getCapabilities()\<close> reports under \<^verbatim>\<open>performance\<close>.\<close>

definition js_getCapabilities_performance :: performance where
  "js_getCapabilities_performance = \<lparr>timeoutMs = 5000, maxIterations = MAX_ITERATIONS\<rparr>"

section \<open>The PCRE engine (pcreEngine.js)\<close>

text \<open>
  The library \<^verbatim>\<open>@syntropiq/libpcre-ts\<close> is a parameter as well: its option constants,
  \<^verbatim>\<open>quickMatch\<close>, and the constructor \<^verbatim>\<open>PCRERegex\<close>, whose \<^verbatim>\<open>exec(text, offset)\<close>
  returns null or an object with \<^verbatim>\<open>success\<close>, \<^verbatim>\<open>start\<close>, \<^verbatim>\<open>end\<close> and, possibly,
  \<^verbatim>\<open>match\<close>, \<^verbatim>\<open>groups\<close> and \<^verbatim>\<open>namedGroups\<close>. Each of the calls may throw.
  Releasing a compiled expression (\<^verbatim>\<open>regex.delete()\<close>) does not change a result.
\<close>

record pcre_constants =
  CASELESS :: nat
  MULTILINE :: nat
  DOTALL :: nat
  EXTENDED :: nat
  UTF8 :: nat

record pcre_match =
  pm_success :: bool
  pm_start :: nat
  pm_end :: nat
  pm_match :: "string option"
  pm_groups :: "string option list option"
  pm_namedGroups :: "(string \<times> string option) list option"

type_synonym pcre_regex = "string \<Rightarrow> nat \<Rightarrow> exn + pcre_match option"

record pcre_lib =
  constants :: pcre_constants
  quickMatch :: "string \<Rightarrow> string \<Rightarrow> nat \<Rightarrow> exn + pcre_match option"
  PCRERegex :: "string \<Rightarrow> nat \<Rightarrow> exn + pcre_regex"

record PCREEngine =
  pe_pcre :: "pcre_lib option"
  pe_initialized :: bool
  pe_initializationError :: "exn option"

definition PCRE_ENGINE_NAME :: string where
  "PCRE_ENGINE_NAME = ''PCRE''"

definition PCRE_SUPPORTED_FLAGS :: string where
  "PCRE_SUPPORTED_FLAGS = ''imsxug''"

definition MAX_RECURSION_DEPTH :: nat where
  "MAX_RECURSION_DEPTH = 100"

definition PCRE_TIMEOUT_MS :: int where
  "PCRE_TIMEOUT_MS = 10000"

definition PCRE_MAX_ITERATIONS :: nat where
  "PCRE_MAX_ITERATIONS = 5000"

definition PCRE_REPLACE_MAX_ITERATIONS :: nat where
  "PCRE_REPLACE_MAX_ITERATIONS = 1000"

text \<open>The TypeError of reading a property of \<^verbatim>\<open>this.pcre\<close> while it is null.\<close>

definition null_property_error :: "string \<Rightarrow> exn" where
  "null_property_error property =
     Exn ''TypeError'' (''Cannot read properties of null (reading '' @ [CHR 0x27] @ property
                        @ [CHR 0x27] @ '')'')"

definition pcre_validateAndSanitizeFlags :: "jsval \<Rightarrow> exn + string" where
  "pcre_validateAndSanitizeFlags flags0 =
     (case default_arg flags0 (Str '''') of
        Str flags \<Rightarrow>
          (let flagArray = flags;
               invalidFlags = filter (\<lambda>flag. flag \<notin> set PCRE_SUPPORTED_FLAGS) flagArray
           in if length invalidFlags > 0
              then Inl (Error (''Unsupported flags for PCRE engine: '' @ invalidFlags
                               @ ''. Supported: '' @ PCRE_SUPPORTED_FLAGS))
              else Inr (new_Set flagArray))
      | _ \<Rightarrow> Inl (Error ''Flags must be a string''))"

definition pcre_createResult ::
  "bool \<Rightarrow> jsval \<Rightarrow> jsval \<Rightarrow> jsval \<Rightarrow> match list \<Rightarrow> js_error option \<Rightarrow> result" where
  "pcre_createResult success pattern flags text matches error =
     \<lparr>r_success = success, r_engine = PCRE_ENGINE_NAME, r_pattern = pattern, r_flags = flags,
      r_text = text, r_matches = matches, r_error = error\<rparr>"

definition pcre_formatMatch :: "pcre_match \<Rightarrow> string \<Rightarrow> match" where
  "pcre_formatMatch match text =
     \<lparr>m_fullMatch = (case pm_match match of
                       Some s \<Rightarrow> if s \<noteq> [] then s
                                 else substring text (int (pm_start match)) (int (pm_end match))
                     | None \<Rightarrow> substring text (int (pm_start match)) (int (pm_end match))),
      m_index = int (pm_start match),
      m_length = int (pm_end match) - int (pm_start match),
      m_groups = (case pm_groups match of None \<Rightarrow> [] | Some g \<Rightarrow> g),
      m_namedGroups = (case pm_namedGroups match of None \<Rightarrow> [] | Some g \<Rightarrow> g),
      m_input = text\<rparr>"

definition ensureInitialized :: "PCREEngine \<Rightarrow> exn + unit" where
  "ensureInitialized this =
     (if \<not> pe_initialized this
      then (case pe_initializationError this of
              Some err \<Rightarrow> Inl (Error (''PCRE engine initialization failed: '' @ exn_message err))
            | None \<Rightarrow> Inl (Error ''PCRE engine not initialized. Call initialize() first.''))
      else Inr ())"

text \<open>
  \<^verbatim>\<open>_convertFlags\<close>: the first flag among \<^verbatim>\<open>imsxu\<close> that is present reads
  \<^verbatim>\<open>this.pcre.constants\<close>, which throws while \<^verbatim>\<open>this.pcre\<close> is null.
\<close>

definition convertFlags :: "PCREEngine \<Rightarrow> string \<Rightarrow> exn + nat" where
  "convertFlags this flags =
     (if \<exists>c \<in> set ''imsxu''. c \<in> set flags
      then (case pe_pcre this of
              None \<Rightarrow> Inl (Error (''Failed to convert flags: ''
                                   @ exn_message (null_property_error ''constants'')))
            | Some lib \<Rightarrow>
                (let c = constants lib;
                     o1 = (if CHR ''i'' \<in> set flags then or 0 (CASELESS c) else 0);
                     o2 = (if CHR ''m'' \<in> set flags then or o1 (MULTILINE c) else o1);
                     o3 = (if CHR ''s'' \<in> set flags then or o2 (DOTALL c) else o2);
                     o4 = (if CHR ''x'' \<in> set flags then or o3 (EXTENDED c) else o3);
                     o5 = (if CHR ''u'' \<in> set flags then or o4 (UTF8 c) else o4)
                 in Inr o5))
      else Inr 0)"

definition pcre_quickMatch :: "PCREEngine \<Rightarrow> string \<Rightarrow> string \<Rightarrow> nat \<Rightarrow> exn + pcre_match option" where
  "pcre_quickMatch this pattern text options =
     (case pe_pcre this of
        None \<Rightarrow> Inl (null_property_error ''quickMatch'')
      | Some lib \<Rightarrow> quickMatch lib pattern text options)"

definition new_PCRERegex :: "PCREEngine \<Rightarrow> string \<Rightarrow> nat \<Rightarrow> exn + pcre_regex" where
  "new_PCRERegex this pattern options =
     (case pe_pcre this of
        None \<Rightarrow> Inl (null_property_error ''PCRERegex'')
      | Some lib \<Rightarrow> PCRERegex lib pattern options)"

definition pcre_test_try :: "PCREEngine \<Rightarrow> clock \<Rightarrow> jsval \<Rightarrow> jsval \<Rightarrow> jsval \<Rightarrow> exn + result" where
  "pcre_test_try this now pattern text flags =
     (case pattern of
        Str p \<Rightarrow>
          (case text of
             Str t \<Rightarrow>
               (case ensureInitialized this of
                  Inl e \<Rightarrow> Inl e
                | Inr _ \<Rightarrow>
                    (case pcre_validateAndSanitizeFlags flags of
                       Inl e \<Rightarrow> Inl e
                     | Inr sanitizedFlags \<Rightarrow>
                         (case convertFlags this sanitizedFlags of
                            Inl e \<Rightarrow> Inl e
                          | Inr options \<Rightarrow>
                              (case pcre_quickMatch this p t options of
                                 Inl pcreError \<Rightarrow>
                                   Inr (pcre_createResult False pattern (Str sanitizedFlags) text []
                                          (Some (createError pcreError ''pattern execution'')))
                               | Inr result \<Rightarrow>
                                   if now 1 - now 0 > PCRE_TIMEOUT_MS
                                   then Inr (pcre_createResult False pattern (Str sanitizedFlags) text []
                                          (Some (createError
                                             (Error ''PCRE execution timeout - pattern may be too complex'')
                                             ''timeout protection'')))
                                   else (case result of
                                      None \<Rightarrow>
                                        Inr (pcre_createResult False pattern (Str sanitizedFlags) text [] None)
                                    | Some r \<Rightarrow>
                                        if \<not> pm_success r
                                        then Inr (pcre_createResult False pattern (Str sanitizedFlags) text
                                                    [] None)
                                        else Inr (pcre_createResult True pattern (Str sanitizedFlags) text
                                                    [pcre_formatMatch r t] None))))))
           | _ \<Rightarrow> Inl (Error ''Text must be a string''))
      | _ \<Rightarrow> Inl (Error ''Pattern must be a string''))"

definition pcre_test :: "PCREEngine \<Rightarrow> clock \<Rightarrow> jsval \<Rightarrow> jsval \<Rightarrow> jsval \<Rightarrow> result" where
  "pcre_test this now pattern text flags0 =
     (let flags = default_arg flags0 (Str '''') in
      case pcre_test_try this now pattern text flags of
        Inr r \<Rightarrow> r
      | Inl error \<Rightarrow>
          pcre_createResult False pattern flags text [] (Some (createError error ''test operation'')))"

text \<open>
  The \<^verbatim>\<open>while (offset < text.length && iterationCount < MAX_ITERATIONS)\<close> loop of
  \<^verbatim>\<open>findAll\<close>. It ends either with a \<^verbatim>\<open>return\<close> from inside the loop (the matches
  so far, the error, and the operation reported when there are no matches), or by leaving
  the loop, by a \<^verbatim>\<open>break\<close> or because its condition fails, with the matches and
  \<^verbatim>\<open>iterationCount\<close>.
\<close>

datatype loop_end = ByBreak | ByCondition

definition next_offset :: "pcre_match \<Rightarrow> nat" where
  "next_offset result =
     (let offset = (if pm_end result \<noteq> 0 then pm_end result else pm_start result + 1)
      in if pm_start result = pm_end result then offset + 1 else offset)"

function pcre_findAll_loop ::
  "pcre_regex \<Rightarrow> string \<Rightarrow> clock \<Rightarrow> nat \<Rightarrow> nat \<Rightarrow> match list
     \<Rightarrow> (match list \<times> exn \<times> string) + (match list \<times> nat \<times> loop_end)" where
  "pcre_findAll_loop regex text now offset iterationCount matches =
     (if offset < length text \<and> iterationCount < PCRE_MAX_ITERATIONS
      then
        if now (iterationCount + 1) - now 0 > PCRE_TIMEOUT_MS
        then Inl (matches, Error ''PCRE execution timeout - pattern may be too complex'',
                  ''timeout protection'')
        else case regex text offset of
               Inl execError \<Rightarrow> Inl (matches, execError, ''pattern execution'')
             | Inr None \<Rightarrow> Inr (matches, iterationCount + 1, ByBreak)
             | Inr (Some result) \<Rightarrow>
                 if \<not> pm_success result then Inr (matches, iterationCount + 1, ByBreak)
                 else if next_offset result > length text
                 then Inr (matches @ [pcre_formatMatch result text], iterationCount + 1, ByBreak)
                 else pcre_findAll_loop regex text now (next_offset result) (iterationCount + 1)
                        (matches @ [pcre_formatMatch result text])
      else Inr (matches, iterationCount, ByCondition))"
  by pat_completeness auto
termination
  by (relation "measure (\<lambda>(regex, text, now, offset, iterationCount, matches).
                   PCRE_MAX_ITERATIONS - iterationCount)") auto

definition pcre_findAll_try :: "PCREEngine \<Rightarrow> clock \<Rightarrow> jsval \<Rightarrow> jsval \<Rightarrow> jsval \<Rightarrow> exn + result" where
  "pcre_findAll_try this now pattern text flags =
     (case pattern of
        Str p \<Rightarrow>
          (case text of
             Str t \<Rightarrow>
               (case ensureInitialized this of
                  Inl e \<Rightarrow> Inl e
                | Inr _ \<Rightarrow>
                    (case pcre_validateAndSanitizeFlags flags of
                       Inl e \<Rightarrow> Inl e
                     | Inr sanitizedFlags \<Rightarrow>
                         (case convertFlags this sanitizedFlags of
                            Inl e \<Rightarrow> Inl e
                          | Inr options \<Rightarrow>
                              (case new_PCRERegex this p options of
                                 Inl compileError \<Rightarrow>
                                   Inr (pcre_createResult False pattern (Str sanitizedFlags) text []
                                          (Some (createError compileError ''pattern compilation'')))
                               | Inr regex \<Rightarrow>
                                   (case pcre_findAll_loop regex t now 0 0 [] of
                                      Inl (matches, error, operation) \<Rightarrow>
                                        if length matches > 0
                                        then Inr (pcre_createResult True pattern (Str sanitizedFlags) text
                                               matches (Some (createError error
                                                  ''partial execution - some matches found'')))
                                        else Inr (pcre_createResult False pattern (Str sanitizedFlags) text
                                               [] (Some (createError error operation)))
                                    | Inr (matches, iterationCount, _) \<Rightarrow>
                                        if iterationCount \<ge> PCRE_MAX_ITERATIONS \<and> length matches > 0
                                        then Inr (pcre_createResult True pattern (Str sanitizedFlags) text
                                               matches (Some (createError
                                                  (Error ''Too many matches found (>5000). Pattern may be too broad.'')
                                                  ''iteration limit reached - some matches found'')))
                                        else Inr (pcre_createResult (length matches > 0) pattern
                                               (Str sanitizedFlags) text matches None))))))
           | _ \<Rightarrow> Inl (Error ''Text must be a string''))
      | _ \<Rightarrow> Inl (Error ''Pattern must be a string''))"

definition pcre_findAll :: "PCREEngine \<Rightarrow> clock \<Rightarrow> jsval \<Rightarrow> jsval \<Rightarrow> jsval \<Rightarrow> result" where
  "pcre_findAll this now pattern text flags0 =
     (let flags = default_arg flags0 (Str '''') in
      case pcre_findAll_try this now pattern text flags of
        Inr r \<Rightarrow> r
      | Inl error \<Rightarrow>
          pcre_createResult False pattern flags text [] (Some (createError error ''findAll operation'')))"

text \<open>The loop of \<^verbatim>\<open>replace\<close>: it collects the matches, or throws.\<close>

function pcre_replace_loop ::
  "pcre_regex \<Rightarrow> string \<Rightarrow> bool \<Rightarrow> clock \<Rightarrow> nat \<Rightarrow> nat \<Rightarrow> pcre_match list \<Rightarrow> exn + pcre_match list" where
  "pcre_replace_loop regex text isGlobal now offset iterationCount matches =
     (if offset < length text \<and> iterationCount < PCRE_REPLACE_MAX_ITERATIONS
      then
        if now (iterationCount + 1) - now 0 > PCRE_TIMEOUT_MS
        then Inl (Error ''PCRE replacement timeout - pattern may be too complex'')
        else case regex text offset of
               Inl e \<Rightarrow> Inl e
             | Inr None \<Rightarrow> Inr matches
             | Inr (Some match) \<Rightarrow>
                 if \<not> pm_success match then Inr matches
                 else if \<not> isGlobal then Inr (matches @ [match])
                 else pcre_replace_loop regex text isGlobal now (next_offset match)
                        (iterationCount + 1) (matches @ [match])
      else Inr matches)"
  by pat_completeness auto
termination
  by (relation "measure (\<lambda>(regex, text, isGlobal, now, offset, iterationCount, matches).
                   PCRE_REPLACE_MAX_ITERATIONS - iterationCount)") auto

text \<open>The matches are replaced from the last to the first.\<close>

fun replace_backwards :: "pcre_match list \<Rightarrow> string \<Rightarrow> string \<Rightarrow> string" where
  "replace_backwards [] replacement result = result"
| "replace_backwards (match # earlier) replacement result =
     (let startPos = pm_start match;
          endPos = (if pm_end match \<noteq> 0 then pm_end match else startPos)
      in replace_backwards earlier replacement
           (substring result 0 (int startPos) @ replacement
              @ substring result (int endPos) (int (length result))))"

definition pcre_replace_try ::
  "PCREEngine \<Rightarrow> clock \<Rightarrow> jsval \<Rightarrow> jsval \<Rightarrow> jsval \<Rightarrow> jsval \<Rightarrow> exn + replace_result" where
  "pcre_replace_try this now pattern text replacement flags =
     (case pattern of
        Str p \<Rightarrow>
          (case text of
             Str t \<Rightarrow>
               (case replacement of
                  Str rep \<Rightarrow>
                    (case ensureInitialized this of
                       Inl e \<Rightarrow> Inl e
                     | Inr _ \<Rightarrow>
                         (case pcre_validateAndSanitizeFlags flags of
                            Inl e \<Rightarrow> Inl e
                          | Inr sanitizedFlags \<Rightarrow>
                              (case convertFlags this sanitizedFlags of
                                 Inl e \<Rightarrow> Inl e
                               | Inr options \<Rightarrow>
                                   (case new_PCRERegex this p options of
                                      Inl compileError \<Rightarrow>
                                        Inr \<lparr>rr_success = False, rr_engine = PCRE_ENGINE_NAME,
                                             rr_pattern = pattern, rr_flags = Str sanitizedFlags,
                                             rr_text = text, rr_replacement = replacement,
                                             rr_result = text,
                                             rr_error = Some (createError compileError
                                                                ''pattern compilation'')\<rparr>
                                    | Inr regex \<Rightarrow>
                                        (case pcre_replace_loop regex t (CHR ''g'' \<in> set sanitizedFlags)
                                                now 0 0 [] of
                                           Inl e \<Rightarrow> Inl e
                                         | Inr matches \<Rightarrow>
                                             Inr \<lparr>rr_success = True, rr_engine = PCRE_ENGINE_NAME,
                                                  rr_pattern = pattern, rr_flags = Str sanitizedFlags,
                                                  rr_text = text, rr_replacement = replacement,
                                                  rr_result = Str (replace_backwards (rev matches) rep t),
                                                  rr_error = None\<rparr>)))))
                | _ \<Rightarrow> Inl (Error ''Replacement must be a string''))
           | _ \<Rightarrow> Inl (Error ''Text must be a string''))
      | _ \<Rightarrow> Inl (Error ''Pattern must be a string''))"

definition pcre_replace ::
  "PCREEngine \<Rightarrow> clock \<Rightarrow> jsval \<Rightarrow> jsval \<Rightarrow> jsval \<Rightarrow> jsval \<Rightarrow> replace_result" where
  "pcre_replace this now pattern text replacement flags0 =
     (let flags = default_arg flags0 (Str '''') in
      case pcre_replace_try this now pattern text replacement flags of
        Inr r \<Rightarrow> r
      | Inl error \<Rightarrow>
          \<lparr>rr_success = False, rr_engine = PCRE_ENGINE_NAME, rr_pattern = pattern, rr_flags = flags,
           rr_text = text, rr_replacement = replacement, rr_result = text,
           rr_error = Some (createError error ''replace operation'')\<rparr>)"

definition pcre_getCapabilities_performance :: performance where
  "pcre_getCapabilities_performance = \<lparr>timeoutMs = PCRE_TIMEOUT_MS, maxIterations = 5000\<rparr>"

section \<open>The engine factory (engineFactory.js)\<close>

definition ENGINE_ALIASES :: "(string \<times> string list) list" where
  "ENGINE_ALIASES = [(''javascript'', [''javascript'', ''js'']), (''pcre'', [''pcre'', ''perl''])]"

definition DEFAULT_ENGINE :: string where
  "DEFAULT_ENGINE = ''javascript''"

text \<open>
  \<^verbatim>\<open>toLowerCase\<close> and \<^verbatim>\<open>trim\<close> on code units below 256: the letters A to Z and the
  Latin-1 capitals have a lower case; tab, line feed, vertical tab, form feed, carriage
  return, space and the no-break space are white space.
\<close>

definition toLowerCase_unit :: "char \<Rightarrow> char" where
  "toLowerCase_unit c =
     (let n = (of_char c :: nat)
      in if (65 \<le> n \<and> n \<le> 90) \<or> (192 \<le> n \<and> n \<le> 222 \<and> n \<noteq> 215)
         then char_of (n + 32) else c)"

definition toLowerCase :: "string \<Rightarrow> string" where
  "toLowerCase s = map toLowerCase_unit s"

definition is_white_space :: "char \<Rightarrow> bool" where
  "is_white_space c = ((of_char c :: nat) \<in> set [9, 10, 11, 12, 13, 32, 160])"

definition trim :: "string \<Rightarrow> string" where
  "trim s = rev (dropWhile is_white_space (rev (dropWhile is_white_space s)))"

text \<open>\<^verbatim>\<open>array.join(', ')\<close>.\<close>

fun join :: "string \<Rightarrow> string list \<Rightarrow> string" where
  "join sep [] = []"
| "join sep [x] = x"
| "join sep (x # y # ys) = x @ sep @ join sep (y # ys)"

fun find_canonical :: "(string \<times> string list) list \<Rightarrow> string \<Rightarrow> string option" where
  "find_canonical [] normalizedName = None"
| "find_canonical ((canonical, aliases) # entries) normalizedName =
     (if normalizedName \<in> set aliases then Some canonical
      else find_canonical entries normalizedName)"

definition normalizeEngineName :: "jsval \<Rightarrow> exn + string" where
  "normalizeEngineName name =
     (case name of
        Str n \<Rightarrow>
          if n = [] then Inl (Error ''Engine name must be a non-empty string'')
          else (case find_canonical ENGINE_ALIASES (trim (toLowerCase n)) of
                  Some canonical \<Rightarrow> Inr canonical
                | None \<Rightarrow>
                    Inl (Error (''Unknown engine: '' @ n @ ''. Available engines: ''
                                @ join '', '' (map fst ENGINE_ALIASES))))
      | _ \<Rightarrow> Inl (Error ''Engine name must be a non-empty string''))"

definition validatePattern :: "jsval \<Rightarrow> exn + unit" where
  "validatePattern pattern =
     (if pattern = Null \<or> pattern = Undefined
      then Inl (Error ''Pattern cannot be null or undefined'')
      else case pattern of
             Str _ \<Rightarrow> Inr ()
           | _ \<Rightarrow> Inl (Error ''Pattern must be a string''))"

definition validateText :: "jsval \<Rightarrow> exn + unit" where
  "validateText text =
     (if text = Null \<or> text = Undefined
      then Inl (Error ''Text cannot be null or undefined'')
      else case text of
             Str _ \<Rightarrow> Inr ()
           | _ \<Rightarrow> Inl (Error ''Text must be a string''))"

definition validateFlags :: "jsval \<Rightarrow> exn + jsval" where
  "validateFlags flags0 =
     (let flags = default_arg flags0 (Str '''')
      in if flags = Null \<or> flags = Undefined then Inr (Str '''')
         else case flags of
                Str _ \<Rightarrow> Inr flags
              | _ \<Rightarrow> Inl (Error ''Flags must be a string''))"

text \<open>
  The engines a factory can hold. The factory keeps them in a \<^verbatim>\<open>Map\<close> from names to
  engines, which lists its keys in the order of their first insertion. The options are
  the object given to the constructor over the defaults, whatever keys it has.
\<close>

datatype engine = JavaScriptEngine | PCRE PCREEngine

record EngineFactory =
  engines :: "(string \<times> engine) list"
  initialized :: bool
  initializationErrors :: "(string \<times> string) list"
  pcreTried :: bool
  options :: "(string \<times> jsval) list"

fun Map_set :: "('k \<times> 'v) list \<Rightarrow> 'k \<Rightarrow> 'v \<Rightarrow> ('k \<times> 'v) list" where
  "Map_set [] k v = [(k, v)]"
| "Map_set ((k', v') # m) k v = (if k' = k then (k, v) # m else (k', v') # Map_set m k v)"

definition new_EngineFactory :: "(string \<times> jsval) list \<Rightarrow> EngineFactory" where
  "new_EngineFactory opts =
     \<lparr>engines = [], initialized = False, initializationErrors = [], pcreTried = False,
      options = opts @ [(''quiet'', Bool False), (''json'', Bool False), (''debug'', Bool False)]\<rparr>"

text \<open>
  \<^verbatim>\<open>initialize()\<close>: the JavaScript engine is constructed, with no argument, and set under
  each of its aliases; the PCRE engine is skipped. What is written to the console is left out.
\<close>

definition initialize :: "EngineFactory \<Rightarrow> exn + EngineFactory" where
  "initialize this =
     (if initialized this then Inr this
      else (let jsEngine = JavaScriptEngine;
                this1 = this\<lparr>initializationErrors := []\<rparr>;
                this2 = this1\<lparr>engines := fold (\<lambda>alias m. Map_set m alias jsEngine)
                                             [''javascript'', ''js''] (engines this1)\<rparr>
            in if length (engines this2) = 0
               then Inl (Error ''No regex engines could be initialized'')
               else Inr (this2\<lparr>initialized := True\<rparr>)))"

fun canonical_names :: "string list \<Rightarrow> string list \<Rightarrow> exn + string list" where
  "canonical_names [] canonicalNames = Inr canonicalNames"
| "canonical_names (name # names) canonicalNames =
     (case normalizeEngineName (Str name) of
        Inl e \<Rightarrow> Inl e
      | Inr canonical \<Rightarrow>
          canonical_names names
            (if canonical \<in> set canonicalNames then canonicalNames else canonicalNames @ [canonical]))"

definition getAvailableEngines :: "EngineFactory \<Rightarrow> exn + string list" where
  "getAvailableEngines this =
     (if \<not> initialized this then Inr []
      else canonical_names (map fst (engines this)) [])"

definition getEngine :: "EngineFactory \<Rightarrow> jsval \<Rightarrow> exn + engine" where
  "getEngine this name =
     (if \<not> initialized this
      then Inl (Error ''EngineFactory not initialized. Call initialize() first.'')
      else case normalizeEngineName name of
             Inl e \<Rightarrow> Inl e
           | Inr normalizedName \<Rightarrow>
               (case map_of (engines this) normalizedName of
                  Some engine \<Rightarrow> Inr engine
                | None \<Rightarrow>
                    (case getAvailableEngines this of
                       Inl e \<Rightarrow> Inl e
                     | Inr available \<Rightarrow>
                         Inl (Error (''Engine '' @ [CHR 0x27] @ (case name of Str n \<Rightarrow> n | _ \<Rightarrow> [])
                                     @ [CHR 0x27] @ '' not available. Available engines: ''
                                     @ join '', '' available)))))"

text \<open>
  The methods of the engines, as the factory calls them. Each engine method catches
  whatever is thrown in its body and returns a result, so the \<^verbatim>\<open>catch\<close> around the call
  in the factory has nothing to catch; a rejected promise is the \<open>Inl\<close> of the result.
\<close>

definition engine_test :: "RegExp_host \<Rightarrow> clock \<Rightarrow> engine \<Rightarrow> jsval \<Rightarrow> jsval \<Rightarrow> jsval \<Rightarrow> result" where
  "engine_test RegExp now engine pattern text flags =
     (case engine of
        JavaScriptEngine \<Rightarrow> js_test RegExp now pattern text flags
      | PCRE this \<Rightarrow> pcre_test this now pattern text flags)"

definition engine_findAll :: "RegExp_host \<Rightarrow> clock \<Rightarrow> engine \<Rightarrow> jsval \<Rightarrow> jsval \<Rightarrow> jsval \<Rightarrow> result" where
  "engine_findAll RegExp now engine pattern text flags =
     (case engine of
        JavaScriptEngine \<Rightarrow> js_findAll RegExp now pattern text flags
      | PCRE this \<Rightarrow> pcre_findAll this now pattern text flags)"

definition engine_replace ::
  "RegExp_host \<Rightarrow> clock \<Rightarrow> engine \<Rightarrow> jsval \<Rightarrow> jsval \<Rightarrow> jsval \<Rightarrow> jsval \<Rightarrow> replace_result" where
  "engine_replace RegExp now engine pattern text replacement flags =
     (case engine of
        JavaScriptEngine \<Rightarrow> js_replace RegExp now pattern text replacement flags
      | PCRE this \<Rightarrow> pcre_replace this now pattern text replacement flags)"

definition factory_test ::
  "RegExp_host \<Rightarrow> clock \<Rightarrow> EngineFactory \<Rightarrow> jsval \<Rightarrow> jsval \<Rightarrow> jsval \<Rightarrow> jsval \<Rightarrow> exn + result" where
  "factory_test RegExp now this engineName pattern text flags =
     (case validatePattern pattern of
        Inl e \<Rightarrow> Inl e
      | Inr _ \<Rightarrow>
          (case validateText text of
             Inl e \<Rightarrow> Inl e
           | Inr _ \<Rightarrow>
               (case validateFlags flags of
                  Inl e \<Rightarrow> Inl e
                | Inr validatedFlags \<Rightarrow>
                    (case getEngine this engineName of
                       Inl e \<Rightarrow> Inl e
                     | Inr engine \<Rightarrow>
                         Inr (engine_test RegExp now engine pattern text validatedFlags)))))"

definition factory_findAll ::
  "RegExp_host \<Rightarrow> clock \<Rightarrow> EngineFactory \<Rightarrow> jsval \<Rightarrow> jsval \<Rightarrow> jsval \<Rightarrow> jsval \<Rightarrow> exn + result" where
  "factory_findAll RegExp now this engineName pattern text flags =
     (case validatePattern pattern of
        Inl e \<Rightarrow> Inl e
      | Inr _ \<Rightarrow>
          (case validateText text of
             Inl e \<Rightarrow> Inl e
           | Inr _ \<Rightarrow>
               (case validateFlags flags of
                  Inl e \<Rightarrow> Inl e
                | Inr validatedFlags \<Rightarrow>
                    (case getEngine this engineName of
                       Inl e \<Rightarrow> Inl e
                     | Inr engine \<Rightarrow>
                         Inr (engine_findAll RegExp now engine pattern text validatedFlags)))))"

definition factory_replace ::
  "RegExp_host \<Rightarrow> clock \<Rightarrow> EngineFactory \<Rightarrow> jsval \<Rightarrow> jsval \<Rightarrow> jsval \<Rightarrow> jsval \<Rightarrow> jsval
     \<Rightarrow> exn + replace_result" where
  "factory_replace RegExp now this engineName pattern text replacement flags =
     (case validatePattern pattern of
        Inl e \<Rightarrow> Inl e
      | Inr _ \<Rightarrow>
          (case validateText text of
             Inl e \<Rightarrow> Inl e
           | Inr _ \<Rightarrow>
               (case validateFlags flags of
                  Inl e \<Rightarrow> Inl e
                | Inr validatedFlags \<Rightarrow>
                    if replacement = Null \<or> replacement = Undefined
                    then Inl (Error ''Replacement cannot be null or undefined'')
                    else (case replacement of
                            Str _ \<Rightarrow>
                              (case getEngine this engineName of
                                 Inl e \<Rightarrow> Inl e
                               | Inr engine \<Rightarrow>
                                   Inr (engine_replace RegExp now engine pattern text replacement
                                          validatedFlags))
                          | _ \<Rightarrow> Inl (Error ''Replacement must be a string'')))))"

section \<open>What the engines rely on from the platform\<close>

text \<open>
  A matcher of the platform does not consume more than the subject has left. A result of
  the PCRE library that reports success lies within the subject, at or after the offset
  asked for, and its \<^verbatim>\<open>match\<close>, when given, is the text between \<^verbatim>\<open>start\<close> and
  \<^verbatim>\<open>end\<close>.
\<close>

definition matcher_ok :: "matcher \<Rightarrow> bool" where
  "matcher_ok m \<longleftrightarrow> (\<forall>S i r. i \<le> length S \<longrightarrow> m S i = Success r \<longrightarrow> i + consumed r \<le> length S)"

definition host_ok :: "RegExp_host \<Rightarrow> bool" where
  "host_ok RegExp \<longleftrightarrow> (\<forall>p f m. RegExp p f = Inr m \<longrightarrow> matcher_ok m)"

definition pcre_match_ok :: "string \<Rightarrow> nat \<Rightarrow> pcre_match \<Rightarrow> bool" where
  "pcre_match_ok text offset r \<longleftrightarrow>
     (pm_success r \<longrightarrow>
        offset \<le> pm_start r \<and> pm_start r \<le> pm_end r \<and> pm_end r \<le> length text \<and>
        (case pm_match r of
           None \<Rightarrow> True
         | Some s \<Rightarrow> s = substring text (int (pm_start r)) (int (pm_end r))))"

definition pcre_regex_ok :: "pcre_regex \<Rightarrow> bool" where
  "pcre_regex_ok regex \<longleftrightarrow>
     (\<forall>text offset r. regex text offset = Inr (Some r) \<longrightarrow> pcre_match_ok text offset r)"

definition pcre_lib_ok :: "pcre_lib \<Rightarrow> bool" where
  "pcre_lib_ok lib \<longleftrightarrow>
     (\<forall>p t opts r. quickMatch lib p t opts = Inr (Some r) \<longrightarrow> pcre_match_ok t 0 r) \<and>
     (\<forall>p opts regex. PCRERegex lib p opts = Inr regex \<longrightarrow> pcre_regex_ok regex)"

definition engine_ok :: "PCREEngine \<Rightarrow> bool" where
  "engine_ok this \<longleftrightarrow> (case pe_pcre this of None \<Rightarrow> True | Some lib \<Rightarrow> pcre_lib_ok lib)"

section \<open>A small platform to run the engines on\<close>

text \<open>
  Three kinds of pattern, with the meaning they have in JavaScript and in PCRE: a pattern
  without metacharacters matches itself, \<^verbatim>\<open>\d*\<close> matches the longest run of digits,
  possibly empty, and \<^verbatim>\<open>\d+\<close> the longest run of at least one digit. Any other
  pattern is refused as a syntax error. The flags are not looked at.
\<close>

definition metacharacters :: string where
  "metacharacters = [CHR 0x5C] @ ''^$.*+?()[]{}|''"

definition literal_matcher :: "string \<Rightarrow> matcher" where
  "literal_matcher p S i =
     (if take (length p) (drop i S) = p
      then Success \<lparr>consumed = length p, captures = [], namedCaptures = None\<rparr>
      else Failure)"

definition digits_matcher :: "bool \<Rightarrow> matcher" where
  "digits_matcher allow_empty S i =
     (let n = length (takeWhile is_digit (drop i S))
      in if n = 0 \<and> \<not> allow_empty then Failure
         else Success \<lparr>consumed = n, captures = [], namedCaptures = None\<rparr>)"

definition sample_compile :: "string \<Rightarrow> exn + matcher" where
  "sample_compile p =
     (if p = [CHR 0x5C, CHR ''d'', CHR ''*''] then Inr (digits_matcher True)
      else if p = [CHR 0x5C, CHR ''d'', CHR ''+''] then Inr (digits_matcher False)
      else if \<exists>c \<in> set p. c \<in> set metacharacters
      then Inl (Exn ''SyntaxError'' (''Invalid regular expression: /'' @ p @ ''/''))
      else Inr (literal_matcher p))"

definition sample_RegExp :: RegExp_host where
  "sample_RegExp p f = sample_compile p"

definition sample_exec :: "matcher \<Rightarrow> pcre_regex" where
  "sample_exec m text offset =
     (case regexp_scan m False text offset of
        Inl e \<Rightarrow> Inl e
      | Inr None \<Rightarrow> Inr None
      | Inr (Some (i, r)) \<Rightarrow>
          Inr (Some \<lparr>pm_success = True, pm_start = i, pm_end = endIndex i r,
                     pm_match = Some (substring text (int i) (int (endIndex i r))),
                     pm_groups = Some (captures r), pm_namedGroups = namedCaptures r\<rparr>))"

definition sample_pcre :: pcre_lib where
  "sample_pcre =
     \<lparr>constants = \<lparr>CASELESS = 1, MULTILINE = 2, DOTALL = 4, EXTENDED = 8, UTF8 = 2048\<rparr>,
      quickMatch = (\<lambda>p t opts. case sample_compile p of
                                  Inl e \<Rightarrow> Inl e
                                | Inr m \<Rightarrow> sample_exec m t 0),
      PCRERegex = (\<lambda>p opts. case sample_compile p of
                               Inl e \<Rightarrow> Inl e
                             | Inr m \<Rightarrow> Inr (sample_exec m))\<rparr>"

definition sample_PCREEngine :: PCREEngine where
  "sample_PCREEngine = \<lparr>pe_pcre = Some sample_pcre, pe_initialized = True, pe_initializationError = None\<rparr>"

definition frozen_clock :: clock where
  "frozen_clock k = 0"

section \<open>Properties of a list of matches\<close>

text \<open>
  The recorded span of a match lies within the subject and reads back the matched text;
  one match comes before another when it starts strictly earlier and ends no later
  than the other starts.
\<close>

definition span_ok :: "string \<Rightarrow> match \<Rightarrow> bool" where
  "span_ok subject m \<longleftrightarrow>
     0 \<le> m_index m \<and> 0 \<le> m_length m \<and> m_index m + m_length m \<le> int (length subject) \<and>
     substring subject (m_index m) (m_index m + m_length m) = m_fullMatch m"

definition spans_ok :: "result \<Rightarrow> bool" where
  "spans_ok r \<longleftrightarrow>
     (case r_text r of
        Str subject \<Rightarrow> list_all (span_ok subject) (r_matches r)
      | _ \<Rightarrow> r_matches r = [])"

definition before :: "match \<Rightarrow> match \<Rightarrow> bool" where
  "before a b \<longleftrightarrow> m_index a < m_index b \<and> m_index a + m_length a \<le> m_index b"

text \<open>The matches with which the loop of the PCRE engine ends, however it ends.\<close>

fun outcome_matches ::
  "(match list \<times> exn \<times> string) + (match list \<times> nat \<times> loop_end) \<Rightarrow> match list" where
  "outcome_matches (Inl (ms, _, _)) = ms"
| "outcome_matches (Inr (ms, _, _)) = ms"

text \<open>
  How the loop of one \<^verbatim>\<open>findAll\<close> invocation of the PCRE engine is left, when the
  invocation reaches the loop and no \<^verbatim>\<open>return\<close> ends it: the same path as
  \<open>pcre_findAll_try\<close>, keeping \<^verbatim>\<open>iterationCount\<close> and the way out.
\<close>

definition pcre_findAll_exit ::
  "PCREEngine \<Rightarrow> clock \<Rightarrow> jsval \<Rightarrow> jsval \<Rightarrow> jsval \<Rightarrow> (nat \<times> loop_end) option" where
  "pcre_findAll_exit this now pattern text flags0 =
     (case pattern of
        Str p \<Rightarrow>
          (case text of
             Str t \<Rightarrow>
               (case ensureInitialized this of
                  Inl e \<Rightarrow> None
                | Inr _ \<Rightarrow>
                    (case pcre_validateAndSanitizeFlags (default_arg flags0 (Str '''')) of
                       Inl e \<Rightarrow> None
                     | Inr sanitizedFlags \<Rightarrow>
                         (case convertFlags this sanitizedFlags of
                            Inl e \<Rightarrow> None
                          | Inr opts \<Rightarrow>
                              (case new_PCRERegex this p opts of
                                 Inl compileError \<Rightarrow> None
                               | Inr regex \<Rightarrow>
                                   (case pcre_findAll_loop regex t now 0 0 [] of
                                      Inl _ \<Rightarrow> None
                                    | Inr (matches, iterationCount, left) \<Rightarrow>
                                        Some (iterationCount, left))))))
           | _ \<Rightarrow> None)
      | _ \<Rightarrow> None)"

text \<open>The patterns \<^verbatim>\<open>\d*\<close> and \<^verbatim>\<open>\d+\<close>.\<close>

definition backslash_d_star :: string where
  "backslash_d_star = [CHR 0x5C, CHR ''d'', CHR ''*'']"

definition backslash_d_plus :: string where
  "backslash_d_plus = [CHR 0x5C, CHR ''d'', CHR ''+'']"

text \<open>
  How the loop of one \<^verbatim>\<open>findAll\<close> invocation of the JavaScript engine is left, when the
  invocation reaches the loop: the same path as \<open>js_findAll_try\<close>, keeping the exit.
\<close>

definition js_findAll_exit :: "RegExp_host \<Rightarrow> clock \<Rightarrow> jsval \<Rightarrow> jsval \<Rightarrow> jsval \<Rightarrow> loop_exit option" where
  "js_findAll_exit RegExp now pattern text flags0 =
     (case pattern of
        Str p \<Rightarrow>
          (case text of
             Str t \<Rightarrow>
               (case js_validateAndSanitizeFlags (default_arg flags0 (Str '''')) of
                  Inl e \<Rightarrow> None
                | Inr sanitizedFlags \<Rightarrow>
                    (let globalFlags = (if CHR ''g'' \<in> set sanitizedFlags then sanitizedFlags
                                        else sanitizedFlags @ ''g'')
                     in case RegExp p globalFlags of
                          Inl syntaxError \<Rightarrow> None
                        | Inr m \<Rightarrow>
                            Some (snd (js_findAll_loop \<lparr>re_matcher = m, re_flags = globalFlags\<rparr>
                                         t now 0 0 []))))
           | _ \<Rightarrow> None)
      | _ \<Rightarrow> None)"

text \<open>A factory constructed with the given options and initialized.\<close>

definition started :: "(string \<times> jsval) list \<Rightarrow> EngineFactory" where
  "started opts =
     (case initialize (new_EngineFactory opts) of
        Inr this \<Rightarrow> this
      | Inl e \<Rightarrow> new_EngineFactory opts)"

definition is_string :: "jsval \<Rightarrow> bool" where
  "is_string v = (case v of Str _ \<Rightarrow> True | _ \<Rightarrow> False)"



section \<open>Flags: validation, deduplication and the global flag\<close>

declare js_findAll_loop.simps [simp del] pcre_findAll_loop.simps [simp del]
  pcre_replace_loop.simps [simp del] replace_results.simps [simp del]

lemma Set_add_all_set: "set (Set_add_all seen xs) = set seen \<union> set xs"
  by (induction xs arbitrary: seen) auto

lemma Set_add_all_distinct: "distinct seen \<Longrightarrow> distinct (Set_add_all seen xs)"
  by (induction xs arbitrary: seen) auto

lemma Set_add_all_fresh: "distinct (seen @ xs) \<Longrightarrow> Set_add_all seen xs = seen @ xs"
  by (induction xs arbitrary: seen) auto


lemma new_Set_set: "set (new_Set xs) = set xs"
  by (simp add: new_Set_def Set_add_all_set)

lemma new_Set_distinct: "distinct (new_Set xs)"
  by (simp add: new_Set_def Set_add_all_distinct)

lemma new_Set_idem: "new_Set (new_Set xs) = new_Set xs"
  using Set_add_all_fresh[of "[]" "new_Set xs"] new_Set_distinct[of xs]
  by (simp add: new_Set_def)


lemma js_flags_valid:
  "set f \<subseteq> set JS_SUPPORTED_FLAGS \<Longrightarrow> js_validateAndSanitizeFlags (Str f) = Inr (new_Set f)"
  by (auto simp: js_validateAndSanitizeFlags_def default_arg_def Let_def filter_empty_conv)


lemma pcre_flags_valid:
  "set f \<subseteq> set PCRE_SUPPORTED_FLAGS \<Longrightarrow> pcre_validateAndSanitizeFlags (Str f) = Inr (new_Set f)"
  by (auto simp: pcre_validateAndSanitizeFlags_def default_arg_def Let_def filter_empty_conv)












section \<open>The loop of the JavaScript engine\<close>

lemma substring_length_le:
  "a \<le> b \<Longrightarrow> int (length (substring s a b)) \<le> b - a"
  by (auto simp: substring_def Let_def min_def max_def)

lemma substring_within:
  "0 \<le> a \<Longrightarrow> a \<le> b \<Longrightarrow> b \<le> int (length s) \<Longrightarrow> int (length (substring s a b)) = b - a"
  by (auto simp: substring_def Let_def min_def max_def)

lemma js_formatMatch_exec:
  assumes "RegExp_exec R S lastIndex = Inr (Some a, lastIndex1)" and "CHR ''g'' \<in> set (re_flags R)"
  shows "int lastIndex \<le> m_index (js_formatMatch a)"
    and "m_index (js_formatMatch a) \<le> int (length S)"
    and "m_index (js_formatMatch a) + m_length (js_formatMatch a) \<le> int lastIndex1"
    and "0 \<le> m_length (js_formatMatch a)"
    and "m_index (js_formatMatch a) = int (a_index a)"
proof -
  note f = RegExp_exec_global[OF assms]
  show "int lastIndex \<le> m_index (js_formatMatch a)" "m_index (js_formatMatch a) \<le> int (length S)"
    "0 \<le> m_length (js_formatMatch a)" "m_index (js_formatMatch a) = int (a_index a)"
    using f(1,2) by (simp_all add: js_formatMatch_def)
  have "int (length (a_0 a)) \<le> int lastIndex1 - int (a_index a)"
    unfolding f(5) using f(3) by (intro substring_length_le) simp
  then show "m_index (js_formatMatch a) + m_length (js_formatMatch a) \<le> int lastIndex1"
    by (simp add: js_formatMatch_def)
qed

lemma js_formatMatch_span:
  assumes "RegExp_exec R S lastIndex = Inr (Some a, lastIndex1)" and "CHR ''g'' \<in> set (re_flags R) \<or> CHR ''y'' \<in> set (re_flags R) \<or> lastIndex = 0"
    and "matcher_ok (re_matcher R)"
  shows "span_ok S (js_formatMatch a)"
proof -
  from assms(1) obtain i r where
    scan: "regexp_scan (re_matcher R) (CHR ''y'' \<in> set (re_flags R)) S
       (if CHR ''g'' \<in> set (re_flags R) \<or> CHR ''y'' \<in> set (re_flags R) then lastIndex else 0)
     = Inr (Some (i, r))"
    and a: "a = \<lparr>a_0 = substring S (int i) (int (endIndex i r)), a_rest = captures r,
                  a_index = i, a_groups = namedCaptures r, a_input = S\<rparr>"
    by (rule RegExp_exec_Some)
  from regexp_scan_found[OF scan] have i: "i \<le> length S" and m: "re_matcher R S i = Success r"
    by simp_all
  with assms(3) have e: "i + consumed r \<le> length S"
    by (auto simp: matcher_ok_def)
  have len: "int (length (substring S (int i) (int (i + consumed r)))) = int (i + consumed r) - int i"
    using e by (intro substring_within) simp_all
  show ?thesis
    using e len by (simp add: span_ok_def a js_formatMatch_def endIndex_def)
qed

lemma js_findAll_loop_rule:
  assumes "js_findAll_loop regex t now lastIndex iterationCount matches = (matches', exit)"
    and "P lastIndex iterationCount matches"
    and "\<And>li ic ms a li1. P li ic ms \<Longrightarrow> RegExp_exec regex t li = Inr (Some a, li1) \<Longrightarrow>
           ic < MAX_ITERATIONS \<Longrightarrow>
           P (if a_index a = li1 then li1 + 1 else li1) (ic + 1) (ms @ [js_formatMatch a])"
  shows "\<exists>li ic. P li ic matches' \<and> (exit = TooManyMatches \<longrightarrow> MAX_ITERATIONS \<le> ic)"
  using assms
proof (induction regex t now lastIndex iterationCount matches rule: js_findAll_loop.induct)
  case (1 regex t now lastIndex iterationCount matches)
  note loop = "1.prems"(1) and P = "1.prems"(2)
  note step = "1.prems"(3)
  show ?case
  proof (cases "RegExp_exec regex t lastIndex")
    case (Inl e)
    with loop have "matches' = matches" "exit = ExecThrew e"
      by (simp_all add: js_findAll_loop.simps[of regex t now lastIndex])
    with P show ?thesis by auto
  next
    case (Inr x)
    obtain ma lastIndex1 where x: "x = (ma, lastIndex1)" by (cases x)
    show ?thesis
    proof (cases ma)
      case None
      with loop Inr x have "matches' = matches" "exit = Completed"
        by (simp_all add: js_findAll_loop.simps[of regex t now lastIndex])
      with P show ?thesis by auto
    next
      case (Some a)
      with Inr x have ex: "RegExp_exec regex t lastIndex = Inr (Some a, lastIndex1)" by simp
      let ?m = "js_formatMatch a"
      let ?next = "if a_index a = lastIndex1 then lastIndex1 + 1 else lastIndex1"
      consider (cap) "iterationCount + 1 > MAX_ITERATIONS"
        | (timeout) "\<not> iterationCount + 1 > MAX_ITERATIONS" "now (iterationCount + 1) - now 0 > JS_TIMEOUT_MS"
        | (break) "\<not> iterationCount + 1 > MAX_ITERATIONS" "\<not> now (iterationCount + 1) - now 0 > JS_TIMEOUT_MS"
                  "?next > length t"
        | (continue) "\<not> iterationCount + 1 > MAX_ITERATIONS" "\<not> now (iterationCount + 1) - now 0 > JS_TIMEOUT_MS"
                  "\<not> ?next > length t"
        by blast
      then show ?thesis
      proof cases
        case cap
        with loop ex have "matches' = matches" "exit = TooManyMatches"
          by (simp_all add: js_findAll_loop.simps[of regex t now lastIndex])
        moreover from cap have "MAX_ITERATIONS \<le> iterationCount" by simp
        ultimately show ?thesis using P by blast
      next
        case timeout
        with loop ex have "matches' = matches" "exit = TimedOut"
          by (simp_all add: js_findAll_loop.simps[of regex t now lastIndex])
        with P show ?thesis by auto
      next
        case break
        with loop ex have "matches' = matches @ [?m]" "exit = Completed"
          by (simp_all add: js_findAll_loop.simps[of regex t now lastIndex])
        moreover have "P ?next (iterationCount + 1) (matches @ [?m])"
          using break(1) by (intro step[OF P ex]) simp
        ultimately show ?thesis by blast
      next
        case continue
        with loop ex have rec: "js_findAll_loop regex t now ?next (iterationCount + 1) (matches @ [?m])
                           = (matches', exit)"
          by (simp add: js_findAll_loop.simps[of regex t now lastIndex])
        have P': "P ?next (iterationCount + 1) (matches @ [?m])"
          using continue(1) by (intro step[OF P ex]) simp
        show ?thesis
          by (rule "1.IH"[OF Inr x[symmetric] Some continue rec P' step])
      qed
    qed
  qed
qed

lemma js_findAll_loop_order:
  assumes "js_findAll_loop regex t now 0 0 [] = (matches, exit)"
    and g: "CHR ''g'' \<in> set (re_flags regex)"
  shows "sorted_wrt before matches" and "\<forall>m \<in> set matches. 0 \<le> m_index m \<and> m_index m \<le> int (length t)"
proof -
  let ?P = "\<lambda>li (ic::nat) ms. sorted_wrt before ms \<and>
              (\<forall>m \<in> set ms. m_index m < int li \<and> m_index m + m_length m \<le> int li
                              \<and> 0 \<le> m_index m \<and> m_index m \<le> int (length t))"
  have "\<exists>li ic. ?P li ic matches \<and> (exit = TooManyMatches \<longrightarrow> MAX_ITERATIONS \<le> ic)"
  proof (rule js_findAll_loop_rule[OF assms(1), where P = ?P])
    show "?P 0 0 []" by simp
  next
    fix li ic ms a li1
    assume P: "?P li ic ms" and ex: "RegExp_exec regex t li = Inr (Some a, li1)"
    note f = js_formatMatch_exec[OF ex g]
    let ?m = "js_formatMatch a"
    have "\<forall>x \<in> set ms. before x ?m"
      using P f(1) by (auto simp: before_def)
    with P have "sorted_wrt before (ms @ [?m])"
      by (simp add: sorted_wrt_append)
    moreover have "\<forall>m \<in> set (ms @ [?m]).
        m_index m < int (if a_index a = li1 then li1 + 1 else li1) \<and>
        m_index m + m_length m \<le> int (if a_index a = li1 then li1 + 1 else li1) \<and>
        0 \<le> m_index m \<and> m_index m \<le> int (length t)"
      using P f by auto
    ultimately show "?P (if a_index a = li1 then li1 + 1 else li1) (ic + 1) (ms @ [?m])"
      by blast
  qed
  then show "sorted_wrt before matches" and "\<forall>m \<in> set matches. 0 \<le> m_index m \<and> m_index m \<le> int (length t)"
    by auto
qed

lemma js_findAll_loop_spans:
  assumes "js_findAll_loop regex t now 0 0 [] = (matches, exit)"
    and g: "CHR ''g'' \<in> set (re_flags regex)" and ok: "matcher_ok (re_matcher regex)"
  shows "list_all (span_ok t) matches"
proof -
  let ?P = "\<lambda>(li::nat) (ic::nat) ms. list_all (span_ok t) ms"
  have "\<exists>li ic. ?P li ic matches \<and> (exit = TooManyMatches \<longrightarrow> MAX_ITERATIONS \<le> ic)"
  proof (rule js_findAll_loop_rule[OF assms(1), where P = ?P])
    show "?P 0 0 []" by simp
  next
    fix li ic ms a li1
    assume P: "?P li ic ms" and ex: "RegExp_exec regex t li = Inr (Some a, li1)"
    from js_formatMatch_span[OF ex _ ok] g have "span_ok t (js_formatMatch a)" by simp
    with P show "?P (if a_index a = li1 then li1 + 1 else li1) (ic + 1) (ms @ [js_formatMatch a])"
      by simp
  qed
  then show ?thesis by simp
qed

lemma js_findAll_loop_count:
  assumes "js_findAll_loop regex t now 0 0 [] = (matches, exit)"
  shows "length matches \<le> MAX_ITERATIONS" and "exit = TooManyMatches \<Longrightarrow> length matches = MAX_ITERATIONS"
proof -
  let ?P = "\<lambda>(li::nat) (ic::nat) ms. length ms = ic \<and> ic \<le> MAX_ITERATIONS"
  have "\<exists>li ic. ?P li ic matches \<and> (exit = TooManyMatches \<longrightarrow> MAX_ITERATIONS \<le> ic)"
    by (rule js_findAll_loop_rule[OF assms(1), where P = ?P]) simp_all
  then show "length matches \<le> MAX_ITERATIONS" and "exit = TooManyMatches \<Longrightarrow> length matches = MAX_ITERATIONS"
    by auto
qed

text \<open>
  After a match that ends where it starts, at index \<open>i\<close>, the loop goes on from \<open>i + 1\<close>;
  after any other match, from the end of the match.
\<close>

lemma js_findAll_step_after_empty_match:
  assumes "RegExp_exec regex t lastIndex = Inr (Some a, lastIndex1)"
    and "a_index a = lastIndex1"
    and "iterationCount < MAX_ITERATIONS"
    and "\<not> now (iterationCount + 1) - now 0 > JS_TIMEOUT_MS"
    and "a_index a + 1 \<le> length t"
  shows "js_findAll_loop regex t now lastIndex iterationCount matches
         = js_findAll_loop regex t now (a_index a + 1) (iterationCount + 1) (matches @ [js_formatMatch a])"
  using assms by (simp add: js_findAll_loop.simps[of regex t now lastIndex])

lemma js_findAll_step_after_match:
  assumes "RegExp_exec regex t lastIndex = Inr (Some a, lastIndex1)"
    and "a_index a \<noteq> lastIndex1"
    and "iterationCount < MAX_ITERATIONS"
    and "\<not> now (iterationCount + 1) - now 0 > JS_TIMEOUT_MS"
    and "lastIndex1 \<le> length t"
  shows "js_findAll_loop regex t now lastIndex iterationCount matches
         = js_findAll_loop regex t now lastIndex1 (iterationCount + 1) (matches @ [js_formatMatch a])"
  using assms by (simp add: js_findAll_loop.simps[of regex t now lastIndex])

lemma strictly_increasing_count:
  fixes xs :: "int list"
  assumes "sorted_wrt (<) xs" and "\<forall>x \<in> set xs. 0 \<le> x \<and> x \<le> int n"
  shows "length xs \<le> n + 1"
proof -
  from assms(1) have "distinct xs" by (simp add: strict_sorted_iff)
  then have "length xs = card (set xs)" by (simp add: distinct_card)
  also have "\<dots> \<le> card {0..int n}"
    using assms(2) by (intro card_mono) auto
  finally show ?thesis by simp
qed

lemma before_count:
  assumes "sorted_wrt before ms" and "\<forall>m \<in> set ms. 0 \<le> m_index m \<and> m_index m \<le> int n"
  shows "length ms \<le> n + 1"
proof -
  have "sorted_wrt (<) (map m_index ms)"
    unfolding sorted_wrt_map using assms(1) by (rule sorted_wrt_mono_rel[rotated]) (simp add: before_def)
  from strictly_increasing_count[OF this, of n] assms(2) show ?thesis by simp
qed

section \<open>Results of the JavaScript engine\<close>

lemma js_test_text: "r_text (js_test RegExp now pattern text flags) = text"
  by (simp add: js_test_def js_test_try_def js_createResult_def Let_def
      split: jsval.splits sum.splits prod.splits option.splits)

lemma js_findAll_text: "r_text (js_findAll RegExp now pattern text flags) = text"
  by (simp add: js_findAll_def js_findAll_try_def js_createResult_def Let_def
      split: jsval.splits sum.splits prod.splits option.splits)

lemma js_findAll_scanned:
  assumes "js_validateAndSanitizeFlags (default_arg flags (Str [])) = Inr sf"
    and "RegExp p (if CHR ''g'' \<in> set sf then sf else sf @ ''g'') = Inr m"
    and "js_findAll_loop \<lparr>re_matcher = m, re_flags = (if CHR ''g'' \<in> set sf then sf else sf @ ''g'')\<rparr>
           t now 0 0 [] = (matches, exit)"
  shows "js_findAll RegExp now (Str p) (Str t) flags =
           js_createResult (matches \<noteq> []) (Str p)
             (Str (if CHR ''g'' \<in> set sf then sf else sf @ ''g'')) (Str t) matches
             (case thrown exit of
                None \<Rightarrow> None
              | Some e \<Rightarrow> Some (createError e (if matches \<noteq> []
                                                then ''partial execution - some matches found''
                                                else ''pattern execution'')))"
  using assms
  by (simp add: js_findAll_def js_findAll_try_def Let_def js_createResult_def split: option.splits)

lemma js_findAll_nonempty:
  assumes "r_matches (js_findAll RegExp now pattern text flags) \<noteq> []"
  obtains p t sf m exit where "pattern = Str p" "text = Str t"
    "js_validateAndSanitizeFlags (default_arg flags (Str [])) = Inr sf"
    "RegExp p (if CHR ''g'' \<in> set sf then sf else sf @ ''g'') = Inr m"
    "js_findAll_loop \<lparr>re_matcher = m, re_flags = (if CHR ''g'' \<in> set sf then sf else sf @ ''g'')\<rparr> t now 0 0 []
       = (r_matches (js_findAll RegExp now pattern text flags), exit)"
proof -
  from assms obtain p where p: "pattern = Str p"
    by (cases pattern) (simp_all add: js_findAll_def js_findAll_try_def js_createResult_def Let_def)
  from assms p obtain t where t: "text = Str t"
    by (cases "text") (simp_all add: js_findAll_def js_findAll_try_def js_createResult_def Let_def)
  from assms p t obtain sf where sf: "js_validateAndSanitizeFlags (default_arg flags (Str [])) = Inr sf"
    by (cases "js_validateAndSanitizeFlags (default_arg flags (Str []))")
       (simp_all add: js_findAll_def js_findAll_try_def js_createResult_def Let_def)
  let ?gf = "if CHR ''g'' \<in> set sf then sf else sf @ ''g''"
  from assms p t sf obtain m where m: "RegExp p ?gf = Inr m"
    by (cases "RegExp p ?gf")
       (simp_all add: js_findAll_def js_findAll_try_def js_createResult_def Let_def)
  obtain matches exit where l: "js_findAll_loop \<lparr>re_matcher = m, re_flags = ?gf\<rparr> t now 0 0 [] = (matches, exit)"
    by (cases "js_findAll_loop \<lparr>re_matcher = m, re_flags = ?gf\<rparr> t now 0 0 []")
  from js_findAll_scanned[where RegExp = RegExp and p = p, OF sf m l] have "r_matches (js_findAll RegExp now (Str p) (Str t) flags) = matches"
    by (simp add: js_createResult_def)
  with p t sf m l that show thesis by blast
qed

lemma js_test_nonempty:
  assumes "r_matches (js_test RegExp now pattern text flags) \<noteq> []"
  obtains p t sf m a li where "pattern = Str p" "text = Str t"
    "RegExp p sf = Inr m"
    "RegExp_exec \<lparr>re_matcher = m, re_flags = sf\<rparr> t 0 = Inr (Some a, li)"
    "r_matches (js_test RegExp now pattern text flags) = [js_formatMatch a]"
proof -
  from assms obtain p where p: "pattern = Str p"
    by (cases pattern) (simp_all add: js_test_def js_test_try_def js_createResult_def Let_def)
  from assms p obtain t where t: "text = Str t"
    by (cases "text") (simp_all add: js_test_def js_test_try_def js_createResult_def Let_def)
  from assms p t obtain sf where sf: "js_validateAndSanitizeFlags (default_arg flags (Str [])) = Inr sf"
    by (cases "js_validateAndSanitizeFlags (default_arg flags (Str []))")
       (simp_all add: js_test_def js_test_try_def js_createResult_def Let_def)
  from assms p t sf obtain m where m: "RegExp p sf = Inr m"
    by (cases "RegExp p sf")
       (simp_all add: js_test_def js_test_try_def js_createResult_def Let_def)
  from assms p t sf m obtain x where x: "RegExp_exec \<lparr>re_matcher = m, re_flags = sf\<rparr> t 0 = Inr x"
    by (cases "RegExp_exec \<lparr>re_matcher = m, re_flags = sf\<rparr> t 0")
       (simp_all add: js_test_def js_test_try_def js_createResult_def Let_def)
  obtain ma li where x': "x = (ma, li)" by (cases x)
  from assms p t sf m x x' obtain a where a: "ma = Some a"
    by (cases ma)
       (simp_all add: js_test_def js_test_try_def js_createResult_def Let_def split: if_splits)
  from assms p t sf m x x' a have "r_matches (js_test RegExp now pattern text flags) = [js_formatMatch a]"
    by (simp add: js_test_def js_test_try_def js_createResult_def Let_def split: if_splits)
  with p t m x x' a that show thesis by blast
qed

lemma js_test_spans:
  assumes "host_ok RegExp"
  shows "spans_ok (js_test RegExp now pattern text flags)"
proof (cases "r_matches (js_test RegExp now pattern text flags) = []")
  case True
  then show ?thesis
    by (cases "text") (simp_all add: spans_ok_def js_test_text)
next
  case False
  then obtain p t sf m a li where *: "pattern = Str p" "text = Str t"
    "RegExp p sf = Inr m"
    "RegExp_exec \<lparr>re_matcher = m, re_flags = sf\<rparr> t 0 = Inr (Some a, li)"
    "r_matches (js_test RegExp now pattern text flags) = [js_formatMatch a]"
    by (rule js_test_nonempty)
  from assms *(3) have "matcher_ok m" by (auto simp: host_ok_def)
  with js_formatMatch_span[OF *(4)] have "span_ok t (js_formatMatch a)" by simp
  with * show ?thesis
    by (simp add: spans_ok_def js_test_text)
qed

lemma js_findAll_spans:
  assumes "host_ok RegExp"
  shows "spans_ok (js_findAll RegExp now pattern text flags)"
proof (cases "r_matches (js_findAll RegExp now pattern text flags) = []")
  case True
  then show ?thesis
    by (cases "text") (simp_all add: spans_ok_def js_findAll_text)
next
  case False
  then obtain p t sf m exit where *: "pattern = Str p" "text = Str t"
    "js_validateAndSanitizeFlags (default_arg flags (Str [])) = Inr sf"
    "RegExp p (if CHR ''g'' \<in> set sf then sf else sf @ ''g'') = Inr m"
    "js_findAll_loop \<lparr>re_matcher = m, re_flags = (if CHR ''g'' \<in> set sf then sf else sf @ ''g'')\<rparr> t now 0 0 []
       = (r_matches (js_findAll RegExp now pattern text flags), exit)"
    by (rule js_findAll_nonempty)
  from assms *(4) have "matcher_ok m" by (auto simp: host_ok_def)
  with js_findAll_loop_spans[OF *(5)] have "list_all (span_ok t) (r_matches (js_findAll RegExp now pattern text flags))"
    by simp
  with * show ?thesis
    by (simp add: spans_ok_def js_findAll_text)
qed


lemma js_findAll_count:
  "length (r_matches (js_findAll RegExp now pattern (Str t) flags)) \<le> length t + 1"
proof (cases "r_matches (js_findAll RegExp now pattern (Str t) flags) = []")
  case True
  then show ?thesis by simp
next
  case False
  then obtain p t' sf m exit where *: "pattern = Str p" "Str t = Str t'"
    "js_validateAndSanitizeFlags (default_arg flags (Str [])) = Inr sf"
    "RegExp p (if CHR ''g'' \<in> set sf then sf else sf @ ''g'') = Inr m"
    "js_findAll_loop \<lparr>re_matcher = m, re_flags = (if CHR ''g'' \<in> set sf then sf else sf @ ''g'')\<rparr> t' now 0 0 []
       = (r_matches (js_findAll RegExp now pattern (Str t) flags), exit)"
    by (rule js_findAll_nonempty)
  from *(2) have t: "t' = t" by simp
  from js_findAll_loop_order[OF *(5)[unfolded t]] show ?thesis
    by (intro before_count) simp_all
qed

section \<open>The loop of the PCRE engine\<close>

lemma pcre_findAll_loop_rule:
  assumes "pcre_findAll_loop regex t now offset iterationCount matches = out"
    and "P offset iterationCount matches"
    and "\<And>off ic ms r. P off ic ms \<Longrightarrow> off < length t \<Longrightarrow> ic < PCRE_MAX_ITERATIONS \<Longrightarrow>
           regex t off = Inr (Some r) \<Longrightarrow> pm_success r \<Longrightarrow>
           P (next_offset r) (ic + 1) (ms @ [pcre_formatMatch r t])"
  shows "\<exists>off ic. P off ic (outcome_matches out) \<and> (\<forall>ms n. out = Inr (ms, n, ByCondition) \<longrightarrow> n = ic)"
  using assms
proof (induction regex t now offset iterationCount matches arbitrary: out rule: pcre_findAll_loop.induct)
  case (1 regex t now offset iterationCount matches)
  note loop = "1.prems"(1) and P = "1.prems"(2) and step = "1.prems"(3)
  have stay: ?case if "outcome_matches out = matches"
    and "\<And>ms n. out = Inr (ms, n, ByCondition) \<Longrightarrow> n = iterationCount"
    using that P by blast
  show ?case
  proof (cases "offset < length t \<and> iterationCount < PCRE_MAX_ITERATIONS")
    case False
    with loop have "out = Inr (matches, iterationCount, ByCondition)"
      by (auto simp: pcre_findAll_loop.simps[of regex t now offset])
    then show ?thesis by (intro stay) simp_all
  next
    case True
    show ?thesis
    proof (cases "now (iterationCount + 1) - now 0 > PCRE_TIMEOUT_MS")
      case timeout: True
      with loop True have "\<exists>e op. out = Inl (matches, e, op)"
        by (auto simp: pcre_findAll_loop.simps[of regex t now offset])
      then show ?thesis by (intro stay) auto
    next
      case notimeout: False
      show ?thesis
      proof (cases "regex t offset")
        case (Inl e)
        with loop True notimeout have "\<exists>e op. out = Inl (matches, e, op)"
          by (auto simp: pcre_findAll_loop.simps[of regex t now offset])
        then show ?thesis by (intro stay) auto
      next
        case (Inr x)
        show ?thesis
        proof (cases x)
          case None
          with loop True notimeout Inr have "out = Inr (matches, iterationCount + 1, ByBreak)"
            by (auto simp: pcre_findAll_loop.simps[of regex t now offset])
          then show ?thesis by (intro stay) simp_all
        next
          case (Some r)
          show ?thesis
          proof (cases "pm_success r")
            case False
            with loop True notimeout Inr Some have "out = Inr (matches, iterationCount + 1, ByBreak)"
              by (auto simp: pcre_findAll_loop.simps[of regex t now offset])
            then show ?thesis by (intro stay) simp_all
          next
            case succ: True
            from True Inr Some succ have P': "P (next_offset r) (iterationCount + 1) (matches @ [pcre_formatMatch r t])"
              by (intro step[OF P]) simp_all
            show ?thesis
            proof (cases "next_offset r > length t")
              case True
              with loop \<open>offset < length t \<and> iterationCount < PCRE_MAX_ITERATIONS\<close> notimeout Inr Some succ
              have "out = Inr (matches @ [pcre_formatMatch r t], iterationCount + 1, ByBreak)"
                by (auto simp: pcre_findAll_loop.simps[of regex t now offset])
              with P' show ?thesis by auto
            next
              case False
              with loop \<open>offset < length t \<and> iterationCount < PCRE_MAX_ITERATIONS\<close> notimeout Inr Some succ
              have rec: "pcre_findAll_loop regex t now (next_offset r) (iterationCount + 1)
                           (matches @ [pcre_formatMatch r t]) = out"
                by (simp add: pcre_findAll_loop.simps[of regex t now offset])
              show ?thesis
                by (rule "1.IH"[OF True notimeout Inr Some _ False rec P' step]) (simp add: succ)
            qed
          qed
        qed
      qed
    qed
  qed
qed

lemma pcre_formatMatch_ok:
  assumes "pcre_match_ok t off r" and "pm_success r"
  shows "span_ok t (pcre_formatMatch r t)"
    and "int off \<le> m_index (pcre_formatMatch r t)"
    and "m_index (pcre_formatMatch r t) < int (next_offset r)"
    and "m_index (pcre_formatMatch r t) + m_length (pcre_formatMatch r t) \<le> int (next_offset r)"
    and "0 \<le> m_index (pcre_formatMatch r t)" and "m_index (pcre_formatMatch r t) \<le> int (length t)"
proof -
  from assms have b: "off \<le> pm_start r" "pm_start r \<le> pm_end r" "pm_end r \<le> length t"
    and mt: "\<And>s. pm_match r = Some s \<Longrightarrow> s = substring t (int (pm_start r)) (int (pm_end r))"
    by (auto simp: pcre_match_ok_def)
  have full: "m_fullMatch (pcre_formatMatch r t) = substring t (int (pm_start r)) (int (pm_end r))"
    using mt by (cases "pm_match r") (auto simp: pcre_formatMatch_def)
  show "span_ok t (pcre_formatMatch r t)"
    using b by (simp add: span_ok_def full) (simp add: pcre_formatMatch_def)
  show "int off \<le> m_index (pcre_formatMatch r t)" "0 \<le> m_index (pcre_formatMatch r t)"
    "m_index (pcre_formatMatch r t) \<le> int (length t)"
    using b by (simp_all add: pcre_formatMatch_def)
  show "m_index (pcre_formatMatch r t) < int (next_offset r)"
    "m_index (pcre_formatMatch r t) + m_length (pcre_formatMatch r t) \<le> int (next_offset r)"
    using b by (auto simp: pcre_formatMatch_def next_offset_def Let_def)
qed

lemma pcre_findAll_loop_props:
  assumes "pcre_findAll_loop regex t now 0 0 [] = out" and ok: "pcre_regex_ok regex"
  shows "sorted_wrt before (outcome_matches out)"
    and "\<forall>m \<in> set (outcome_matches out). 0 \<le> m_index m \<and> m_index m \<le> int (length t)"
    and "list_all (span_ok t) (outcome_matches out)"
proof -
  let ?P = "\<lambda>off (ic::nat) ms. sorted_wrt before ms \<and> list_all (span_ok t) ms \<and>
              (\<forall>m \<in> set ms. m_index m < int off \<and> m_index m + m_length m \<le> int off
                              \<and> 0 \<le> m_index m \<and> m_index m \<le> int (length t))"
  have "\<exists>off ic. ?P off ic (outcome_matches out) \<and> (\<forall>ms n. out = Inr (ms, n, ByCondition) \<longrightarrow> n = ic)"
  proof (rule pcre_findAll_loop_rule[OF assms(1), where P = ?P])
    show "?P 0 0 []" by simp
  next
    fix off ic ms r
    assume P: "?P off ic ms" and ex: "regex t off = Inr (Some r)" and succ: "pm_success r"
    from ok ex have "pcre_match_ok t off r" by (auto simp: pcre_regex_ok_def)
    note f = pcre_formatMatch_ok[OF this succ]
    let ?m = "pcre_formatMatch r t"
    have "\<forall>x \<in> set ms. before x ?m"
      using P f(2) by (auto simp: before_def)
    with P have "sorted_wrt before (ms @ [?m])"
      by (simp add: sorted_wrt_append)
    moreover have "list_all (span_ok t) (ms @ [?m])"
      using P f(1) by simp
    moreover have "\<forall>m \<in> set (ms @ [?m]).
        m_index m < int (next_offset r) \<and> m_index m + m_length m \<le> int (next_offset r) \<and>
        0 \<le> m_index m \<and> m_index m \<le> int (length t)"
    proof
      fix m assume "m \<in> set (ms @ [?m])"
      then consider "m \<in> set ms" | "m = ?m" by auto
      then show "m_index m < int (next_offset r) \<and> m_index m + m_length m \<le> int (next_offset r) \<and>
        0 \<le> m_index m \<and> m_index m \<le> int (length t)"
      proof cases
        case 1
        with P have "m_index m < int off" "m_index m + m_length m \<le> int off" "0 \<le> m_index m"
          "m_index m \<le> int (length t)" by auto
        with f(2,3) show ?thesis by linarith
      next
        case 2
        with f show ?thesis by simp
      qed
    qed
    ultimately show "?P (next_offset r) (ic + 1) (ms @ [?m])"
      by blast
  qed
  then show "sorted_wrt before (outcome_matches out)"
    and "\<forall>m \<in> set (outcome_matches out). 0 \<le> m_index m \<and> m_index m \<le> int (length t)"
    and "list_all (span_ok t) (outcome_matches out)"
    by auto
qed

section \<open>Results of the PCRE engine\<close>

lemma pcre_test_text: "r_text (pcre_test this now pattern text flags) = text"
  by (simp add: pcre_test_def pcre_test_try_def pcre_createResult_def Let_def
      split: jsval.splits sum.splits prod.splits option.splits)

lemma pcre_findAll_text: "r_text (pcre_findAll this now pattern text flags) = text"
  by (simp add: pcre_findAll_def pcre_findAll_try_def pcre_createResult_def Let_def
      split: jsval.splits sum.splits prod.splits option.splits)

lemma pcre_findAll_nonempty:
  assumes "r_matches (pcre_findAll this now pattern text flags) \<noteq> []"
  obtains p t sf opts regex out where "pattern = Str p" "text = Str t"
    "new_PCRERegex this p opts = Inr regex"
    "pcre_findAll_loop regex t now 0 0 [] = out"
    "r_matches (pcre_findAll this now pattern text flags) = outcome_matches out"
proof -
  note defs = pcre_findAll_def pcre_findAll_try_def pcre_createResult_def Let_def
  from assms obtain p where p: "pattern = Str p"
    by (cases pattern) (simp_all add: defs)
  from assms p obtain t where t: "text = Str t"
    by (cases "text") (simp_all add: defs)
  from assms p t have i: "ensureInitialized this = Inr ()"
    by (cases "ensureInitialized this") (simp_all add: defs)
  from assms p t i obtain sf where sf: "pcre_validateAndSanitizeFlags (default_arg flags (Str [])) = Inr sf"
    by (cases "pcre_validateAndSanitizeFlags (default_arg flags (Str []))") (simp_all add: defs)
  from assms p t i sf obtain opts where opts: "convertFlags this sf = Inr opts"
    by (cases "convertFlags this sf") (simp_all add: defs)
  from assms p t i sf opts obtain regex where regex: "new_PCRERegex this p opts = Inr regex"
    by (cases "new_PCRERegex this p opts") (simp_all add: defs)
  have "r_matches (pcre_findAll this now pattern text flags)
          = outcome_matches (pcre_findAll_loop regex t now 0 0 [])"
    using p t i sf opts regex
    by (cases "pcre_findAll_loop regex t now 0 0 []" rule: outcome_matches.cases)
       (simp_all add: defs)
  with p t regex that show thesis by blast
qed

lemma pcre_test_nonempty:
  assumes "r_matches (pcre_test this now pattern text flags) \<noteq> []"
  obtains p t opts r where "pattern = Str p" "text = Str t"
    "pcre_quickMatch this p t opts = Inr (Some r)" "pm_success r"
    "r_matches (pcre_test this now pattern text flags) = [pcre_formatMatch r t]"
proof -
  note defs = pcre_test_def pcre_test_try_def pcre_createResult_def Let_def
  from assms obtain p where p: "pattern = Str p"
    by (cases pattern) (simp_all add: defs)
  from assms p obtain t where t: "text = Str t"
    by (cases "text") (simp_all add: defs)
  from assms p t have i: "ensureInitialized this = Inr ()"
    by (cases "ensureInitialized this") (simp_all add: defs)
  from assms p t i obtain sf where sf: "pcre_validateAndSanitizeFlags (default_arg flags (Str [])) = Inr sf"
    by (cases "pcre_validateAndSanitizeFlags (default_arg flags (Str []))") (simp_all add: defs)
  from assms p t i sf obtain opts where opts: "convertFlags this sf = Inr opts"
    by (cases "convertFlags this sf") (simp_all add: defs)
  from assms p t i sf opts obtain x where x: "pcre_quickMatch this p t opts = Inr x"
    by (cases "pcre_quickMatch this p t opts") (simp_all add: defs)
  from assms p t i sf opts x obtain r where r: "x = Some r"
    by (cases x) (simp_all add: defs split: if_splits)
  from assms p t i sf opts x r have "pm_success r"
    and "r_matches (pcre_test this now pattern text flags) = [pcre_formatMatch r t]"
    by (simp_all add: defs split: if_splits)
  with p t x r that show thesis by blast
qed

lemma engine_ok_regex:
  assumes "engine_ok this" and "new_PCRERegex this p opts = Inr regex"
  shows "pcre_regex_ok regex"
  using assms
  by (auto simp: engine_ok_def new_PCRERegex_def pcre_lib_ok_def split: option.splits)

lemma engine_ok_quickMatch:
  assumes "engine_ok this" and "pcre_quickMatch this p t opts = Inr (Some r)"
  shows "pcre_match_ok t 0 r"
  using assms
  by (auto simp: engine_ok_def pcre_quickMatch_def pcre_lib_ok_def split: option.splits)

lemma pcre_test_spans:
  assumes "engine_ok this"
  shows "spans_ok (pcre_test this now pattern text flags)"
proof (cases "r_matches (pcre_test this now pattern text flags) = []")
  case True
  then show ?thesis
    by (cases "text") (simp_all add: spans_ok_def pcre_test_text)
next
  case False
  then obtain p t opts r where *: "pattern = Str p" "text = Str t"
    "pcre_quickMatch this p t opts = Inr (Some r)" "pm_success r"
    "r_matches (pcre_test this now pattern text flags) = [pcre_formatMatch r t]"
    by (rule pcre_test_nonempty)
  from pcre_formatMatch_ok(1)[OF engine_ok_quickMatch[OF assms *(3)] *(4)] *
  show ?thesis
    by (simp add: spans_ok_def pcre_test_text)
qed

lemma pcre_findAll_spans:
  assumes "engine_ok this"
  shows "spans_ok (pcre_findAll this now pattern text flags)"
proof (cases "r_matches (pcre_findAll this now pattern text flags) = []")
  case True
  then show ?thesis
    by (cases "text") (simp_all add: spans_ok_def pcre_findAll_text)
next
  case False
  then obtain p t sf opts regex out where *: "pattern = Str p" "text = Str t"
    "new_PCRERegex this p opts = Inr regex"
    "pcre_findAll_loop regex t now 0 0 [] = out"
    "r_matches (pcre_findAll this now pattern text flags) = outcome_matches out"
    by (rule pcre_findAll_nonempty)
  from pcre_findAll_loop_props(3)[OF *(4) engine_ok_regex[OF assms *(3)]] *
  show ?thesis
    by (simp add: spans_ok_def pcre_findAll_text)
qed


lemma pcre_findAll_count:
  assumes "engine_ok this"
  shows "length (r_matches (pcre_findAll this now pattern (Str t) flags)) \<le> length t + 1"
proof (cases "r_matches (pcre_findAll this now pattern (Str t) flags) = []")
  case True
  then show ?thesis by simp
next
  case False
  then obtain p t' sf opts regex out where *: "pattern = Str p" "Str t = Str t'"
    "new_PCRERegex this p opts = Inr regex"
    "pcre_findAll_loop regex t' now 0 0 [] = out"
    "r_matches (pcre_findAll this now pattern (Str t) flags) = outcome_matches out"
    by (rule pcre_findAll_nonempty)
  from *(2) have t: "t' = t" by simp
  from pcre_findAll_loop_props(1,2)[OF *(4)[unfolded t] engine_ok_regex[OF assms *(3)]] *(5)
  show ?thesis
    by (intro before_count) simp_all
qed

section \<open>The sample platform is well behaved\<close>

lemma literal_matcher_ok: "matcher_ok (literal_matcher p)"
proof -
  have "i + length p \<le> length S" if "i \<le> length S" "take (length p) (drop i S) = p" for i S
  proof -
    from that(2) have "length (take (length p) (drop i S)) = length p" by simp
    then have "length p \<le> length S - i" by simp
    with that(1) show ?thesis by simp
  qed
  then show ?thesis
    by (auto simp: matcher_ok_def literal_matcher_def split: if_splits)
qed

lemma digits_matcher_ok: "matcher_ok (digits_matcher b)"
proof -
  have "i + length (takeWhile is_digit (drop i S)) \<le> length S" if "i \<le> length S" for i S
    using that length_takeWhile_le[of is_digit "drop i S"] by simp
  then show ?thesis
    by (auto simp: matcher_ok_def digits_matcher_def Let_def split: if_splits)
qed

lemma sample_compile_ok: "sample_compile p = Inr m \<Longrightarrow> matcher_ok m"
  by (auto simp: sample_compile_def literal_matcher_ok digits_matcher_ok split: if_splits)

lemma sample_RegExp_ok: "host_ok sample_RegExp"
  by (auto simp: host_ok_def sample_RegExp_def dest: sample_compile_ok)

lemma sample_exec_ok:
  assumes "matcher_ok m"
  shows "pcre_regex_ok (sample_exec m)"
proof -
  have "pcre_match_ok t off r" if "sample_exec m t off = Inr (Some r)" for t off r
  proof -
    from that obtain i st where scan: "regexp_scan m False t off = Inr (Some (i, st))"
      and r: "r = \<lparr>pm_success = True, pm_start = i, pm_end = endIndex i st,
                     pm_match = Some (substring t (int i) (int (endIndex i st))),
                     pm_groups = Some (captures st), pm_namedGroups = namedCaptures st\<rparr>"
      by (auto simp: sample_exec_def split: sum.splits option.splits prod.splits)
    from regexp_scan_found[OF scan] have "off \<le> i" "i \<le> length t" "m t i = Success st" by simp_all
    with assms have "i + consumed st \<le> length t" by (auto simp: matcher_ok_def)
    with \<open>off \<le> i\<close> show ?thesis
      by (simp add: pcre_match_ok_def r endIndex_def)
  qed
  then show ?thesis by (auto simp: pcre_regex_ok_def)
qed

lemma sample_pcre_ok: "pcre_lib_ok sample_pcre"
  by (auto simp: pcre_lib_ok_def sample_pcre_def split: sum.splits
      dest!: sample_compile_ok sample_exec_ok simp: pcre_regex_ok_def)

lemma sample_PCREEngine_ok: "engine_ok sample_PCREEngine"
  by (simp add: engine_ok_def sample_PCREEngine_def sample_pcre_ok)

section \<open>The claims about spans, order and zero-length matches\<close>

text \<open>
  C6. Every match in the result of \<^verbatim>\<open>test\<close> or \<^verbatim>\<open>findAll\<close>, of either engine,
  records a span that reads back its text: the index and the length are not negative, the
  span ends within the subject, and the substring of the subject from the index to the
  index plus the length is the full match. The platform is assumed to match within the
  subject (\<open>host_ok\<close>, \<open>engine_ok\<close>).
\<close>

theorem match_span_round_trip:
  assumes "host_ok RegExp" and "engine_ok this"
  shows "spans_ok (js_test RegExp now pattern text flags) \<and>
         spans_ok (js_findAll RegExp now pattern text flags) \<and>
         spans_ok (pcre_test this now pattern text flags) \<and>
         spans_ok (pcre_findAll this now pattern text flags)"
  using assms by (simp add: js_test_spans js_findAll_spans pcre_test_spans pcre_findAll_spans)

theorem match_span_round_trip_witness:
  "host_ok sample_RegExp \<and> engine_ok sample_PCREEngine \<and>
   spans_ok (js_test sample_RegExp frozen_clock (Str backslash_d_plus) (Str ''Order #123'') (Str '''')) \<and>
   spans_ok (js_findAll sample_RegExp frozen_clock (Str backslash_d_plus) (Str ''Order #123'') (Str '''')) \<and>
   spans_ok (pcre_test sample_PCREEngine frozen_clock (Str backslash_d_plus) (Str ''Order #123'') (Str '''')) \<and>
   spans_ok (pcre_findAll sample_PCREEngine frozen_clock (Str backslash_d_plus) (Str ''Order #123'') (Str '''')) \<and>
   r_matches (js_test sample_RegExp frozen_clock (Str backslash_d_plus) (Str ''Order #123'') (Str ''''))
     = [\<lparr>m_fullMatch = ''123'', m_index = 7, m_length = 3, m_groups = [], m_namedGroups = [],
         m_input = ''Order #123''\<rparr>]"
proof -
  have "r_matches (js_test sample_RegExp frozen_clock (Str backslash_d_plus) (Str ''Order #123'') (Str ''''))
     = [\<lparr>m_fullMatch = ''123'', m_index = 7, m_length = 3, m_groups = [], m_namedGroups = [],
         m_input = ''Order #123''\<rparr>]"
    by code_simp
  with match_span_round_trip[OF sample_RegExp_ok sample_PCREEngine_ok] sample_RegExp_ok sample_PCREEngine_ok
  show ?thesis by blast
qed



text \<open>
  C3. After a zero-length match at offset \<open>i\<close> the next search position is \<open>i + 1\<close>.
  The JavaScript engine does so (\<open>js_findAll_step_after_empty_match\<close>), and both engines
  return at most \<open>length text + 1\<close> matches (\<open>js_findAll_count\<close>, \<open>pcre_findAll_count\<close>).
  The PCRE engine, after a zero-length match at offset 0, searches next from offset 2:
  \<^verbatim>\<open>result.end || (result.start + 1)\<close> takes the end 0 for missing and gives 1, and the
  guard for zero-length matches adds one more. On the text \<^verbatim>\<open>a12b\<close> the pattern
  \<^verbatim>\<open>\d*\<close> then finds \<^verbatim>\<open>2\<close> at index 2 where the match \<^verbatim>\<open>12\<close> at index 1 is due,
  as the JavaScript engine finds it.
\<close>

theorem pcre_findAll_skips_offset_1:
  "next_offset \<lparr>pm_success = True, pm_start = 0, pm_end = 0, pm_match = Some [], pm_groups = None,
                 pm_namedGroups = None\<rparr> = 2 \<and>
   map (\<lambda>m. (m_index m, m_fullMatch m))
     (r_matches (pcre_findAll sample_PCREEngine frozen_clock (Str backslash_d_star) (Str ''a12b'') (Str '''')))
     = [(0, ''''), (2, ''2''), (3, '''')] \<and>
   map (\<lambda>m. (m_index m, m_fullMatch m))
     (r_matches (js_findAll sample_RegExp frozen_clock (Str backslash_d_star) (Str ''a12b'') (Str '''')))
     = [(0, ''''), (1, ''12''), (3, ''''), (4, '''')]"
  by code_simp

section \<open>The iteration cap\<close>

lemma js_findAll_exit_cap:
  assumes "js_findAll_exit RegExp now pattern text flags = Some TooManyMatches"
  shows "r_success (js_findAll RegExp now pattern text flags)"
    and "length (r_matches (js_findAll RegExp now pattern text flags)) = MAX_ITERATIONS"
    and "r_error (js_findAll RegExp now pattern text flags)
         = Some \<lparr>e_message = ''Too many matches found (>10000). Pattern may be too broad.'',
                 e_type = ''Error'', e_operation = ''partial execution - some matches found''\<rparr>"
proof -
  note defs = js_findAll_exit_def Let_def
  from assms obtain p where p: "pattern = Str p"
    by (cases pattern) (simp_all add: defs)
  from assms p obtain t where t: "text = Str t"
    by (cases "text") (simp_all add: defs)
  from assms p t obtain sf where sf: "js_validateAndSanitizeFlags (default_arg flags (Str [])) = Inr sf"
    by (cases "js_validateAndSanitizeFlags (default_arg flags (Str []))") (simp_all add: defs)
  let ?gf = "if CHR ''g'' \<in> set sf then sf else sf @ ''g''"
  from assms p t sf obtain m where m: "RegExp p ?gf = Inr m"
    by (cases "RegExp p ?gf") (simp_all add: defs)
  obtain matches exit where l: "js_findAll_loop \<lparr>re_matcher = m, re_flags = ?gf\<rparr> t now 0 0 [] = (matches, exit)"
    by (cases "js_findAll_loop \<lparr>re_matcher = m, re_flags = ?gf\<rparr> t now 0 0 []")
  from assms p t sf m l have exit: "exit = TooManyMatches"
    by (simp add: defs)
  from js_findAll_loop_count(2)[OF l exit] have len: "length matches = MAX_ITERATIONS" .
  then have ne: "matches \<noteq> []" by (auto simp: MAX_ITERATIONS_def)
  note r = js_findAll_scanned[where RegExp = RegExp and p = p, OF sf m l]
  show "r_success (js_findAll RegExp now pattern text flags)"
    and "length (r_matches (js_findAll RegExp now pattern text flags)) = MAX_ITERATIONS"
    and "r_error (js_findAll RegExp now pattern text flags)
         = Some \<lparr>e_message = ''Too many matches found (>10000). Pattern may be too broad.'',
                 e_type = ''Error'', e_operation = ''partial execution - some matches found''\<rparr>"
    unfolding p t r using ne len exit
    by (simp_all add: js_createResult_def thrown_def createError_def Error_def)
qed

lemma substring_take_drop:
  assumes "a \<le> b" and "b \<le> length s"
  shows "substring s (int a) (int b) = take (b - a) (drop a s)"
proof -
  have "min (max (int a) 0) (int (length s)) = int a" "min (max (int b) 0) (int (length s)) = int b"
    using assms by simp_all
  moreover have "min (int a) (int b) = int a" "max (int a) (int b) = int b"
    using assms by simp_all
  moreover have "nat (int b - int a) = b - a" by simp
  ultimately show ?thesis
    by (simp add: substring_def Let_def)
qed

lemma literal_a_exec:
  assumes "k < n"
  shows "RegExp_exec \<lparr>re_matcher = literal_matcher ''a'', re_flags = ''g''\<rparr> (replicate n CHR ''a'') k
         = Inr (Some \<lparr>a_0 = ''a'', a_rest = [], a_index = k, a_groups = None,
                       a_input = replicate n CHR ''a''\<rparr>, k + 1)"
proof -
  have d: "drop k (replicate n CHR ''a'') = CHR ''a'' # replicate (n - k - 1) CHR ''a''"
    using assms by (cases "n - k") simp_all
  then have m: "literal_matcher ''a'' (replicate n CHR ''a'') k
           = Success \<lparr>consumed = 1, captures = [], namedCaptures = None\<rparr>"
    by (simp add: literal_matcher_def)
  have sc: "regexp_scan (literal_matcher ''a'') False (replicate n CHR ''a'') k
        = Inr (Some (k, \<lparr>consumed = 1, captures = [], namedCaptures = None\<rparr>))"
    using assms by (subst regexp_scan.simps) (simp add: m)
  have "substring (replicate n CHR ''a'') (int k) (int (k + 1)) = take (k + 1 - k) (drop k (replicate n CHR ''a''))"
    using assms by (intro substring_take_drop) simp_all
  also have "\<dots> = ''a''" unfolding d by simp
  finally have sub: "substring (replicate n CHR ''a'') (int k) (int k + 1) = ''a''"
    by (simp add: add.commute)
  show ?thesis
    by (simp add: RegExp_exec_def Let_def sc endIndex_def sub)
qed

lemma literal_a_loop_cap:
  assumes "MAX_ITERATIONS < n" and "k \<le> MAX_ITERATIONS"
  shows "snd (js_findAll_loop \<lparr>re_matcher = literal_matcher ''a'', re_flags = ''g''\<rparr>
                (replicate n CHR ''a'') frozen_clock k k ms) = TooManyMatches"
  using assms(2)
proof (induction "MAX_ITERATIONS - k" arbitrary: k ms)
  case 0
  then have k: "k = MAX_ITERATIONS" by simp
  with assms(1) have "k < n" by simp
  from literal_a_exec[OF this] k show ?case
    by (subst js_findAll_loop.simps) simp
next
  case (Suc d)
  then have k: "k < MAX_ITERATIONS" by simp
  with assms(1) have kn: "k < n" "k + 1 < n" by simp_all
  have step: "js_findAll_loop \<lparr>re_matcher = literal_matcher ''a'', re_flags = ''g''\<rparr>
                (replicate n CHR ''a'') frozen_clock k k ms
        = js_findAll_loop \<lparr>re_matcher = literal_matcher ''a'', re_flags = ''g''\<rparr>
                (replicate n CHR ''a'') frozen_clock (k + 1) (k + 1)
                (ms @ [js_formatMatch \<lparr>a_0 = ''a'', a_rest = [], a_index = k, a_groups = None,
                       a_input = replicate n CHR ''a''\<rparr>])"
    using literal_a_exec[OF kn(1)] k kn
    by (subst js_findAll_loop.simps) (simp add: frozen_clock_def JS_TIMEOUT_MS_def)
  from Suc(2) k have "d = MAX_ITERATIONS - (k + 1)" by simp
  from Suc(1)[OF this] k show ?case
    unfolding step by simp
qed

lemma pcre_findAll_loop_count:
  assumes "pcre_findAll_loop regex t now 0 0 [] = Inr (matches, n, ByCondition)"
  shows "length matches = n" and "n \<le> PCRE_MAX_ITERATIONS"
proof -
  let ?P = "\<lambda>(off::nat) (ic::nat) ms. length ms = ic \<and> ic \<le> PCRE_MAX_ITERATIONS"
  have "\<exists>off ic. ?P off ic (outcome_matches (pcre_findAll_loop regex t now 0 0 []))
          \<and> (\<forall>ms n'. pcre_findAll_loop regex t now 0 0 [] = Inr (ms, n', ByCondition) \<longrightarrow> n' = ic)"
    by (rule pcre_findAll_loop_rule[OF refl, where P = ?P]) simp_all
  then show "length matches = n" and "n \<le> PCRE_MAX_ITERATIONS" unfolding assms by auto
qed

lemma pcre_findAll_exit_cap:
  assumes "pcre_findAll_exit this now pattern text flags = Some (n, ByCondition)"
    and "PCRE_MAX_ITERATIONS \<le> n"
  shows "r_success (pcre_findAll this now pattern text flags)"
    and "length (r_matches (pcre_findAll this now pattern text flags)) = PCRE_MAX_ITERATIONS"
    and "r_error (pcre_findAll this now pattern text flags)
         = Some \<lparr>e_message = ''Too many matches found (>5000). Pattern may be too broad.'',
                 e_type = ''Error'', e_operation = ''iteration limit reached - some matches found''\<rparr>"
proof -
  note defs = pcre_findAll_exit_def Let_def
  from assms(1) obtain p where p: "pattern = Str p"
    by (cases pattern) (simp_all add: defs)
  from assms(1) p obtain t where t: "text = Str t"
    by (cases "text") (simp_all add: defs)
  from assms(1) p t have i: "ensureInitialized this = Inr ()"
    by (cases "ensureInitialized this") (simp_all add: defs)
  from assms(1) p t i obtain sf where sf: "pcre_validateAndSanitizeFlags (default_arg flags (Str [])) = Inr sf"
    by (cases "pcre_validateAndSanitizeFlags (default_arg flags (Str []))") (simp_all add: defs)
  from assms(1) p t i sf obtain opts where opts: "convertFlags this sf = Inr opts"
    by (cases "convertFlags this sf") (simp_all add: defs)
  from assms(1) p t i sf opts obtain regex where regex: "new_PCRERegex this p opts = Inr regex"
    by (cases "new_PCRERegex this p opts") (simp_all add: defs)
  from assms(1) p t i sf opts regex obtain matches where
    l: "pcre_findAll_loop regex t now 0 0 [] = Inr (matches, n, ByCondition)"
    by (cases "pcre_findAll_loop regex t now 0 0 []") (auto simp: defs)
  from pcre_findAll_loop_count[OF l] assms(2) have len: "length matches = PCRE_MAX_ITERATIONS"
    and n: "n = PCRE_MAX_ITERATIONS"
    by simp_all
  then have ne: "matches \<noteq> []" by (auto simp: PCRE_MAX_ITERATIONS_def)
  show "r_success (pcre_findAll this now pattern text flags)"
    and "length (r_matches (pcre_findAll this now pattern text flags)) = PCRE_MAX_ITERATIONS"
    and "r_error (pcre_findAll this now pattern text flags)
         = Some \<lparr>e_message = ''Too many matches found (>5000). Pattern may be too broad.'',
                 e_type = ''Error'', e_operation = ''iteration limit reached - some matches found''\<rparr>"
    using p t i sf opts regex l len n ne
    by (simp_all add: pcre_findAll_def pcre_findAll_try_def pcre_createResult_def createError_def
        Error_def)
qed

lemma literal_a_pcre_exec:
  assumes "k < n"
  shows "sample_exec (literal_matcher ''a'') (replicate n CHR ''a'') k
         = Inr (Some \<lparr>pm_success = True, pm_start = k, pm_end = k + 1, pm_match = Some ''a'',
                       pm_groups = Some [], pm_namedGroups = None\<rparr>)"
proof -
  have d: "drop k (replicate n CHR ''a'') = CHR ''a'' # replicate (n - k - 1) CHR ''a''"
    using assms by (cases "n - k") simp_all
  then have m: "literal_matcher ''a'' (replicate n CHR ''a'') k
           = Success \<lparr>consumed = 1, captures = [], namedCaptures = None\<rparr>"
    by (simp add: literal_matcher_def)
  have sc: "regexp_scan (literal_matcher ''a'') False (replicate n CHR ''a'') k
        = Inr (Some (k, \<lparr>consumed = 1, captures = [], namedCaptures = None\<rparr>))"
    using assms by (subst regexp_scan.simps) (simp add: m)
  have "substring (replicate n CHR ''a'') (int k) (int (k + 1)) = take (k + 1 - k) (drop k (replicate n CHR ''a''))"
    using assms by (intro substring_take_drop) simp_all
  also have "\<dots> = ''a''" unfolding d by simp
  finally have sub: "substring (replicate n CHR ''a'') (int k) (int k + 1) = ''a''"
    by (simp add: add.commute)
  show ?thesis
    by (simp add: sample_exec_def sc endIndex_def sub)
qed

lemma literal_a_pcre_loop_cap:
  assumes "PCRE_MAX_ITERATIONS < n" and "k \<le> PCRE_MAX_ITERATIONS"
  shows "\<exists>ms. pcre_findAll_loop (sample_exec (literal_matcher ''a'')) (replicate n CHR ''a'') frozen_clock k k ms0
              = Inr (ms, PCRE_MAX_ITERATIONS, ByCondition)"
  using assms(2)
proof (induction "PCRE_MAX_ITERATIONS - k" arbitrary: k ms0)
  case 0
  then have k: "k = PCRE_MAX_ITERATIONS" by simp
  then show ?case
    by (subst pcre_findAll_loop.simps) simp
next
  case (Suc d)
  then have k: "k < PCRE_MAX_ITERATIONS" by simp
  with assms(1) have kn: "k < n" "k + 1 < n" by simp_all
  let ?r = "\<lparr>pm_success = True, pm_start = k, pm_end = k + 1, pm_match = Some ''a'',
                       pm_groups = Some [], pm_namedGroups = None\<rparr>"
  have no: "next_offset ?r = k + 1" by (simp add: next_offset_def Let_def)
  have step: "pcre_findAll_loop (sample_exec (literal_matcher ''a'')) (replicate n CHR ''a'') frozen_clock k k ms0
        = pcre_findAll_loop (sample_exec (literal_matcher ''a'')) (replicate n CHR ''a'') frozen_clock (k + 1) (k + 1)
            (ms0 @ [pcre_formatMatch ?r (replicate n CHR ''a'')])"
    using literal_a_pcre_exec[OF kn(1)] k kn no
    by (subst pcre_findAll_loop.simps) (simp add: frozen_clock_def PCRE_TIMEOUT_MS_def)
  from Suc(2) k have "d = PCRE_MAX_ITERATIONS - (k + 1)" by simp
  from Suc(1)[OF this] k show ?case
    unfolding step by simp
qed

lemma sample_pcre_exit_cap:
  "pcre_findAll_exit sample_PCREEngine frozen_clock (Str ''a'') (Str (replicate 5001 CHR ''a'')) (Str '''')
   = Some (5000, ByCondition)"
proof -
  have f: "pcre_validateAndSanitizeFlags (default_arg (Str '''') (Str '''')) = Inr ''''"
    by (simp add: pcre_validateAndSanitizeFlags_def default_arg_def new_Set_def)
  have c: "convertFlags sample_PCREEngine '''' = Inr 0"
    by (simp add: convertFlags_def)
  have r: "new_PCRERegex sample_PCREEngine ''a'' 0 = Inr (sample_exec (literal_matcher ''a''))"
    by (simp add: new_PCRERegex_def sample_PCREEngine_def sample_pcre_def sample_compile_def
        metacharacters_def)
  have i: "ensureInitialized sample_PCREEngine = Inr ()"
    by (simp add: ensureInitialized_def sample_PCREEngine_def)
  from literal_a_pcre_loop_cap[of 5001 0 "[]"] obtain ms where
    "pcre_findAll_loop (sample_exec (literal_matcher ''a'')) (replicate 5001 CHR ''a'') frozen_clock 0 0 []
              = Inr (ms, PCRE_MAX_ITERATIONS, ByCondition)"
    by (auto simp: PCRE_MAX_ITERATIONS_def)
  then show ?thesis
    by (simp add: pcre_findAll_exit_def f c r i PCRE_MAX_ITERATIONS_def)
qed

text \<open>
  C4. When \<^verbatim>\<open>findAll\<close> leaves its loop because the iteration cap is reached, the result
  has \<^verbatim>\<open>success\<close> true, keeps the matches found, as many as the cap, and carries the
  error of the cap. In the JavaScript engine the loop is then left by the \<^verbatim>\<open>throw\<close> under
  \<^verbatim>\<open>iterationCount > MAX_ITERATIONS\<close>, with 10000 matches; in the PCRE engine by its
  condition \<^verbatim>\<open>iterationCount < MAX_ITERATIONS\<close>, with 5000 matches. The error objects of
  the code have a message, a type and an operation; the failure for the resource limit
  is the error with the message \<^verbatim>\<open>Too many matches found\<close>.
\<close>

theorem findAll_cap_keeps_matches:
  "(js_findAll_exit RegExp now pattern text flags = Some TooManyMatches \<longrightarrow>
      r_success (js_findAll RegExp now pattern text flags) \<and>
      length (r_matches (js_findAll RegExp now pattern text flags)) = MAX_ITERATIONS \<and>
      r_error (js_findAll RegExp now pattern text flags)
        = Some \<lparr>e_message = ''Too many matches found (>10000). Pattern may be too broad.'',
                e_type = ''Error'', e_operation = ''partial execution - some matches found''\<rparr>) \<and>
   (pcre_findAll_exit this now pattern text flags = Some (n, ByCondition) \<and>
    PCRE_MAX_ITERATIONS \<le> n \<longrightarrow>
      r_success (pcre_findAll this now pattern text flags) \<and>
      length (r_matches (pcre_findAll this now pattern text flags)) = PCRE_MAX_ITERATIONS \<and>
      r_error (pcre_findAll this now pattern text flags)
        = Some \<lparr>e_message = ''Too many matches found (>5000). Pattern may be too broad.'',
                e_type = ''Error'', e_operation = ''iteration limit reached - some matches found''\<rparr>)"
  using js_findAll_exit_cap[of RegExp now pattern "text" flags]
    pcre_findAll_exit_cap[of this now pattern "text" flags n]
  by blast

theorem findAll_cap_keeps_matches_witness:
  "js_findAll_exit sample_RegExp frozen_clock (Str ''a'') (Str (replicate 10001 CHR ''a'')) (Str '''')
     = Some TooManyMatches \<and>
   r_success (js_findAll sample_RegExp frozen_clock (Str ''a'') (Str (replicate 10001 CHR ''a'')) (Str '''')) \<and>
   length (r_matches (js_findAll sample_RegExp frozen_clock (Str ''a'') (Str (replicate 10001 CHR ''a'')) (Str '''')))
     = 10000 \<and>
   r_error (js_findAll sample_RegExp frozen_clock (Str ''a'') (Str (replicate 10001 CHR ''a'')) (Str ''''))
     = Some \<lparr>e_message = ''Too many matches found (>10000). Pattern may be too broad.'',
             e_type = ''Error'', e_operation = ''partial execution - some matches found''\<rparr> \<and>
   pcre_findAll_exit sample_PCREEngine frozen_clock (Str ''a'') (Str (replicate 5001 CHR ''a'')) (Str '''')
     = Some (5000, ByCondition) \<and>
   r_success (pcre_findAll sample_PCREEngine frozen_clock (Str ''a'') (Str (replicate 5001 CHR ''a'')) (Str '''')) \<and>
   length (r_matches (pcre_findAll sample_PCREEngine frozen_clock (Str ''a'') (Str (replicate 5001 CHR ''a'')) (Str '''')))
     = 5000 \<and>
   r_error (pcre_findAll sample_PCREEngine frozen_clock (Str ''a'') (Str (replicate 5001 CHR ''a'')) (Str ''''))
     = Some \<lparr>e_message = ''Too many matches found (>5000). Pattern may be too broad.'',
             e_type = ''Error'', e_operation = ''iteration limit reached - some matches found''\<rparr>"
proof -
  have c: "sample_RegExp ''a'' ''g'' = Inr (literal_matcher ''a'')"
    by (simp add: sample_RegExp_def sample_compile_def metacharacters_def)
  have f: "js_validateAndSanitizeFlags (default_arg (Str '''') (Str '''')) = Inr ''''"
    by (simp add: js_validateAndSanitizeFlags_def default_arg_def new_Set_def)
  have e: "js_findAll_exit sample_RegExp frozen_clock (Str ''a'') (Str (replicate 10001 CHR ''a'')) (Str '''')
     = Some TooManyMatches"
    unfolding js_findAll_exit_def
    using literal_a_loop_cap[of 10001 0 "[]"]
    by (simp add: f c MAX_ITERATIONS_def)
  from e findAll_cap_keeps_matches[of sample_RegExp frozen_clock "Str ''a''"
      "Str (replicate 10001 CHR ''a'')" "Str ''''" sample_PCREEngine 0]
  have 1: "r_success (js_findAll sample_RegExp frozen_clock (Str ''a'') (Str (replicate 10001 CHR ''a'')) (Str ''''))"
    "length (r_matches (js_findAll sample_RegExp frozen_clock (Str ''a'') (Str (replicate 10001 CHR ''a'')) (Str '''')))
     = 10000"
    "r_error (js_findAll sample_RegExp frozen_clock (Str ''a'') (Str (replicate 10001 CHR ''a'')) (Str ''''))
     = Some \<lparr>e_message = ''Too many matches found (>10000). Pattern may be too broad.'',
             e_type = ''Error'', e_operation = ''partial execution - some matches found''\<rparr>"
    by (simp_all add: MAX_ITERATIONS_def)
  from sample_pcre_exit_cap findAll_cap_keeps_matches[of sample_RegExp frozen_clock "Str ''a''"
      "Str (replicate 5001 CHR ''a'')" "Str ''''" sample_PCREEngine 5000]
  have 2: "r_success (pcre_findAll sample_PCREEngine frozen_clock (Str ''a'') (Str (replicate 5001 CHR ''a'')) (Str ''''))"
    "length (r_matches (pcre_findAll sample_PCREEngine frozen_clock (Str ''a'') (Str (replicate 5001 CHR ''a'')) (Str '''')))
     = 5000"
    "r_error (pcre_findAll sample_PCREEngine frozen_clock (Str ''a'') (Str (replicate 5001 CHR ''a'')) (Str ''''))
     = Some \<lparr>e_message = ''Too many matches found (>5000). Pattern may be too broad.'',
             e_type = ''Error'', e_operation = ''iteration limit reached - some matches found''\<rparr>"
    by (simp_all add: PCRE_MAX_ITERATIONS_def)
  from e sample_pcre_exit_cap 1 2 show ?thesis by simp
qed

section \<open>The factory\<close>

lemma validatePattern_cases:
  "validatePattern pattern =
     (if is_string pattern then Inr ()
      else Inl (Error (if pattern = Null \<or> pattern = Undefined
                       then ''Pattern cannot be null or undefined''
                       else ''Pattern must be a string'')))"
  by (cases pattern) (simp_all add: validatePattern_def is_string_def)

lemma validateText_cases:
  "validateText text =
     (if is_string text then Inr ()
      else Inl (Error (if text = Null \<or> text = Undefined
                       then ''Text cannot be null or undefined''
                       else ''Text must be a string'')))"
  by (cases "text") (simp_all add: validateText_def is_string_def)

lemma validateFlags_cases:
  "validateFlags flags =
     (if is_string flags then Inr flags
      else if flags = Null \<or> flags = Undefined then Inr (Str [])
      else Inl (Error ''Flags must be a string''))"
  by (cases flags) (simp_all add: validateFlags_def is_string_def default_arg_def)

text \<open>
  C1, as the claim states it, fails: called with a pattern or text that is not a string,
  the factory throws; it returns no result.
\<close>

theorem facade_throws_on_null_pattern:
  "factory_test sample_RegExp frozen_clock (started []) (Str ''javascript'') Null (Str ''abc'') (Str '''')
     = Inl (Error ''Pattern cannot be null or undefined'') \<and>
   factory_findAll sample_RegExp frozen_clock (started []) (Str ''javascript'') (Num 7) (Str ''abc'') (Str '''')
     = Inl (Error ''Pattern must be a string'') \<and>
   factory_replace sample_RegExp frozen_clock (started []) (Str ''javascript'') (Str ''a'') Undefined (Str ''b'') (Str '''')
     = Inl (Error ''Text cannot be null or undefined'')"
  by (simp add: factory_test_def factory_findAll_def factory_replace_def validatePattern_def
      validateText_def)

text \<open>
  C1, amended. Called with a pattern that is not a string (null and undefined included),
  \<^verbatim>\<open>test\<close>, \<^verbatim>\<open>findAll\<close> and \<^verbatim>\<open>replace\<close> of the factory throw the error of
  \<^verbatim>\<open>validatePattern\<close>, and with a string pattern and a text that is not a string the
  error of \<^verbatim>\<open>validateText\<close>, whatever the engine name and the state of the factory:
  the promise is rejected and no result is returned. With a string pattern and text,
  flags that are a string, null or undefined (for \<^verbatim>\<open>replace\<close>, a string replacement) and
  an engine name that \<^verbatim>\<open>getEngine\<close> resolves, they do not throw and return the result of
  the engine.
\<close>

theorem facade_validation:
  "(\<not> is_string pattern \<longrightarrow>
      (\<exists>msg. validatePattern pattern = Inl (Error msg) \<and>
             factory_test RegExp now this engineName pattern text flags = Inl (Error msg) \<and>
             factory_findAll RegExp now this engineName pattern text flags = Inl (Error msg) \<and>
             factory_replace RegExp now this engineName pattern text replacement flags = Inl (Error msg))) \<and>
   (is_string pattern \<and> \<not> is_string text \<longrightarrow>
      (\<exists>msg. validateText text = Inl (Error msg) \<and>
             factory_test RegExp now this engineName pattern text flags = Inl (Error msg) \<and>
             factory_findAll RegExp now this engineName pattern text flags = Inl (Error msg) \<and>
             factory_replace RegExp now this engineName pattern text replacement flags = Inl (Error msg))) \<and>
   (is_string pattern \<and> is_string text \<and> (is_string flags \<or> flags = Null \<or> flags = Undefined) \<and>
    getEngine this engineName = Inr engine \<longrightarrow>
      factory_test RegExp now this engineName pattern text flags
        = Inr (engine_test RegExp now engine pattern text (if is_string flags then flags else Str [])) \<and>
      factory_findAll RegExp now this engineName pattern text flags
        = Inr (engine_findAll RegExp now engine pattern text (if is_string flags then flags else Str [])) \<and>
      (is_string replacement \<longrightarrow>
         factory_replace RegExp now this engineName pattern text replacement flags
           = Inr (engine_replace RegExp now engine pattern text replacement
                    (if is_string flags then flags else Str []))))"
proof (intro conjI impI)
  assume "\<not> is_string pattern"
  then show "\<exists>msg. validatePattern pattern = Inl (Error msg) \<and>
             factory_test RegExp now this engineName pattern text flags = Inl (Error msg) \<and>
             factory_findAll RegExp now this engineName pattern text flags = Inl (Error msg) \<and>
             factory_replace RegExp now this engineName pattern text replacement flags = Inl (Error msg)"
    by (auto simp: factory_test_def factory_findAll_def factory_replace_def validatePattern_cases)
next
  assume "is_string pattern \<and> \<not> is_string text"
  then show "\<exists>msg. validateText text = Inl (Error msg) \<and>
             factory_test RegExp now this engineName pattern text flags = Inl (Error msg) \<and>
             factory_findAll RegExp now this engineName pattern text flags = Inl (Error msg) \<and>
             factory_replace RegExp now this engineName pattern text replacement flags = Inl (Error msg)"
    by (auto simp: factory_test_def factory_findAll_def factory_replace_def validatePattern_cases
        validateText_cases)
next
  assume a: "is_string pattern \<and> is_string text \<and> (is_string flags \<or> flags = Null \<or> flags = Undefined) \<and>
    getEngine this engineName = Inr engine"
  then show "factory_test RegExp now this engineName pattern text flags
        = Inr (engine_test RegExp now engine pattern text (if is_string flags then flags else Str []))"
    by (auto simp: factory_test_def validatePattern_cases validateText_cases validateFlags_cases)
  from a show "factory_findAll RegExp now this engineName pattern text flags
        = Inr (engine_findAll RegExp now engine pattern text (if is_string flags then flags else Str []))"
    by (auto simp: factory_findAll_def validatePattern_cases validateText_cases validateFlags_cases)
  assume "is_string replacement"
  with a show "factory_replace RegExp now this engineName pattern text replacement flags
           = Inr (engine_replace RegExp now engine pattern text replacement
                    (if is_string flags then flags else Str []))"
    by (cases replacement)
       (auto simp: factory_replace_def validatePattern_cases validateText_cases validateFlags_cases
          is_string_def)
qed

lemma started_eq:
  "started opts =
     \<lparr>engines = [(''javascript'', JavaScriptEngine), (''js'', JavaScriptEngine)], initialized = True,
      initializationErrors = [], pcreTried = False,
      options = opts @ [(''quiet'', Bool False), (''json'', Bool False), (''debug'', Bool False)]\<rparr>"
  by (simp add: started_def initialize_def new_EngineFactory_def)

lemma normalize_names:
  "normalizeEngineName (Str ''js'') = Inr ''javascript''"
  "normalizeEngineName (Str ''javascript'') = Inr ''javascript''"
  "normalizeEngineName (Str ''pcre'') = Inr ''pcre''"
  "normalizeEngineName (Str ''perl'') = Inr ''pcre''"
  "normalizeEngineName (Str '' JS '') = Inr ''javascript''"
  by code_simp+

lemma started_js: "getEngine (started []) (Str ''js'') = Inr JavaScriptEngine"
  by (simp add: started_eq getEngine_def normalize_names)

theorem facade_validation_witness:
  "\<not> is_string Null \<and> is_string (Str ''a'') \<and> is_string (Str ''aaa'') \<and> is_string (Str ''b'') \<and>
   getEngine (started []) (Str ''js'') = Inr JavaScriptEngine \<and>
   factory_test sample_RegExp frozen_clock (started []) (Str ''js'') Null (Str ''aaa'') (Str '''')
     = Inl (Error ''Pattern cannot be null or undefined'') \<and>
   factory_findAll sample_RegExp frozen_clock (started []) (Str ''js'') (Str ''a'') Null (Str '''')
     = Inl (Error ''Text cannot be null or undefined'') \<and>
   factory_test sample_RegExp frozen_clock (started []) (Str ''js'') (Str ''a'') (Str ''aaa'') Undefined
     = Inr (js_test sample_RegExp frozen_clock (Str ''a'') (Str ''aaa'') (Str '''')) \<and>
   factory_replace sample_RegExp frozen_clock (started []) (Str ''js'') (Str ''a'') (Str ''aaa'') (Str ''b'') (Str ''g'')
     = Inr (js_replace sample_RegExp frozen_clock (Str ''a'') (Str ''aaa'') (Str ''b'') (Str ''g''))"
proof -
  have s: "\<not> is_string Null" "\<not> is_string Undefined" "is_string (Str ''a'')" "is_string (Str ''aaa'')"
    "is_string (Str ''b'')" "is_string (Str ''g'')"
    by (simp_all add: is_string_def)
  have v: "validatePattern Null = Inl (Error ''Pattern cannot be null or undefined'')"
    "validateText Null = Inl (Error ''Text cannot be null or undefined'')"
    by (simp_all add: validatePattern_def validateText_def)
  from facade_validation[of Null sample_RegExp frozen_clock "started []" "Str ''js''" "Str ''aaa''" "Str ''''"
      "Str ''b''" JavaScriptEngine] s v
  have 1: "factory_test sample_RegExp frozen_clock (started []) (Str ''js'') Null (Str ''aaa'') (Str '''')
     = Inl (Error ''Pattern cannot be null or undefined'')"
    by auto
  from facade_validation[of "Str ''a''" sample_RegExp frozen_clock "started []" "Str ''js''" Null "Str ''''"
      "Str ''b''" JavaScriptEngine] s v
  have 2: "factory_findAll sample_RegExp frozen_clock (started []) (Str ''js'') (Str ''a'') Null (Str '''')
     = Inl (Error ''Text cannot be null or undefined'')"
    by auto
  from facade_validation[of "Str ''a''" sample_RegExp frozen_clock "started []" "Str ''js''" "Str ''aaa''" Undefined
      "Str ''b''" JavaScriptEngine] s started_js
  have 3: "factory_test sample_RegExp frozen_clock (started []) (Str ''js'') (Str ''a'') (Str ''aaa'') Undefined
     = Inr (js_test sample_RegExp frozen_clock (Str ''a'') (Str ''aaa'') (Str ''''))"
    by (simp add: engine_test_def)
  from facade_validation[of "Str ''a''" sample_RegExp frozen_clock "started []" "Str ''js''" "Str ''aaa''" "Str ''g''"
      "Str ''b''" JavaScriptEngine] s started_js
  have 4: "factory_replace sample_RegExp frozen_clock (started []) (Str ''js'') (Str ''a'') (Str ''aaa'') (Str ''b'') (Str ''g'')
     = Inr (js_replace sample_RegExp frozen_clock (Str ''a'') (Str ''aaa'') (Str ''b'') (Str ''g''))"
    by (simp add: engine_replace_def)
  from s started_js 1 2 3 4 show ?thesis by simp
qed






section \<open>The limits and the options of the factory\<close>

lemma getAvailableEngines_options:
  "getAvailableEngines (this\<lparr>options := opts\<rparr>) = getAvailableEngines this"
  by (simp add: getAvailableEngines_def)

lemma getEngine_options: "getEngine (this\<lparr>options := opts\<rparr>) name = getEngine this name"
  by (simp add: getEngine_def getAvailableEngines_options split: sum.splits option.splits)

lemma factory_findAll_options:
  "factory_findAll RegExp now (this\<lparr>options := opts\<rparr>) engineName pattern text flags
   = factory_findAll RegExp now this engineName pattern text flags"
  by (simp add: factory_findAll_def getEngine_options split: sum.splits)

lemma started_javascript: "getEngine (started opts) (Str ''javascript'') = Inr JavaScriptEngine"
  by (simp add: started_eq getEngine_def normalize_names)

text \<open>
  C9. The limits are to be configuration that the factory can override. The factory keeps
  the options it is constructed with, \<^verbatim>\<open>timeout\<close> and \<^verbatim>\<open>maxIterations\<close> among them,
  and nothing reads them: the engine is constructed without arguments and enforces its
  constants, and the methods of the factory have no parameter for a limit
  (\<open>factory_findAll_options\<close>). With \<^verbatim>\<open>maxIterations\<close> 10 and \<^verbatim>\<open>timeout\<close> 1000
  configured, \<^verbatim>\<open>findAll\<close> over 20 matches, 100 ms apart, returns the 20 matches and no
  error.
\<close>

theorem factory_limits_are_not_enforced:
  "map_of (options (started [(''timeout'', Num 1000), (''maxIterations'', Num 10)])) ''maxIterations''
     = Some (Num 10) \<and>
   map_of (options (started [(''timeout'', Num 1000), (''maxIterations'', Num 10)])) ''timeout''
     = Some (Num 1000) \<and>
   map_sum id (\<lambda>r. (r_success r, length (r_matches r), r_error r))
     (factory_findAll sample_RegExp (\<lambda>k. 100 * int k)
        (started [(''timeout'', Num 1000), (''maxIterations'', Num 10)])
        (Str ''javascript'') (Str ''a'') (Str ''aaaaaaaaaaaaaaaaaaaa'') (Str ''''))
     = Inr (True, 20, None)"
proof -
  have "(r_success (js_findAll sample_RegExp (\<lambda>k. 100 * int k) (Str ''a'') (Str ''aaaaaaaaaaaaaaaaaaaa'') (Str '''')),
         length (r_matches (js_findAll sample_RegExp (\<lambda>k. 100 * int k) (Str ''a'') (Str ''aaaaaaaaaaaaaaaaaaaa'') (Str ''''))),
         r_error (js_findAll sample_RegExp (\<lambda>k. 100 * int k) (Str ''a'') (Str ''aaaaaaaaaaaaaaaaaaaa'') (Str '''')))
        = (True, 20, None)"
    by code_simp
  then show ?thesis
    by (simp add: factory_findAll_def validatePattern_def validateText_def validateFlags_def
        default_arg_def started_javascript engine_findAll_def)
       (simp add: started_eq)
qed

section \<open>Replacing\<close>















section \<open>Repeated flags\<close>

lemma js_sanitize_idem:
  assumes "set f \<subseteq> set JS_SUPPORTED_FLAGS"
  shows "js_validateAndSanitizeFlags (Str (new_Set f)) = js_validateAndSanitizeFlags (Str f)"
proof -
  have "set (new_Set f) \<subseteq> set JS_SUPPORTED_FLAGS" using assms by (simp add: new_Set_set)
  from js_flags_valid[OF this] js_flags_valid[OF assms] show ?thesis
    by (simp add: new_Set_idem)
qed

lemma pcre_sanitize_idem:
  assumes "set f \<subseteq> set PCRE_SUPPORTED_FLAGS"
  shows "pcre_validateAndSanitizeFlags (Str (new_Set f)) = pcre_validateAndSanitizeFlags (Str f)"
proof -
  have "set (new_Set f) \<subseteq> set PCRE_SUPPORTED_FLAGS" using assms by (simp add: new_Set_set)
  from pcre_flags_valid[OF this] pcre_flags_valid[OF assms] show ?thesis
    by (simp add: new_Set_idem)
qed

lemma js_try_repeated_flags:
  assumes "set f \<subseteq> set JS_SUPPORTED_FLAGS"
  shows "js_test_try RegExp now pattern text (Str (new_Set f)) = js_test_try RegExp now pattern text (Str f)"
    and "js_findAll_try RegExp now pattern text (Str (new_Set f)) = js_findAll_try RegExp now pattern text (Str f)"
    and "js_replace_try RegExp now pattern text replacement (Str (new_Set f))
         = js_replace_try RegExp now pattern text replacement (Str f)"
  unfolding js_test_try_def js_findAll_try_def js_replace_try_def js_sanitize_idem[OF assms]
  by (rule refl)+

lemma js_try_returns:
  assumes "set f \<subseteq> set JS_SUPPORTED_FLAGS"
  shows "\<exists>r. js_test_try RegExp now (Str p) (Str t) (Str f) = Inr r"
    and "\<exists>r. js_findAll_try RegExp now (Str p) (Str t) (Str f) = Inr r"
    and "\<exists>r. js_replace_try RegExp now (Str p) (Str t) (Str rep) (Str f) = Inr r"
  by (simp_all add: js_test_try_def js_findAll_try_def js_replace_try_def js_flags_valid[OF assms] Let_def
      split: sum.splits option.splits prod.splits)

lemma js_repeated_flags:
  assumes "set f \<subseteq> set JS_SUPPORTED_FLAGS"
  shows "js_test RegExp now (Str p) (Str t) (Str f) = js_test RegExp now (Str p) (Str t) (Str (new_Set f))"
    and "js_findAll RegExp now (Str p) (Str t) (Str f) = js_findAll RegExp now (Str p) (Str t) (Str (new_Set f))"
    and "js_replace RegExp now (Str p) (Str t) (Str rep) (Str f)
         = js_replace RegExp now (Str p) (Str t) (Str rep) (Str (new_Set f))"
proof -
  from js_try_returns(1)[OF assms] obtain r where "js_test_try RegExp now (Str p) (Str t) (Str f) = Inr r"
    by blast
  then show "js_test RegExp now (Str p) (Str t) (Str f) = js_test RegExp now (Str p) (Str t) (Str (new_Set f))"
    by (simp add: js_test_def default_arg_def js_try_repeated_flags[OF assms])
  from js_try_returns(2)[OF assms] obtain r where "js_findAll_try RegExp now (Str p) (Str t) (Str f) = Inr r"
    by blast
  then show "js_findAll RegExp now (Str p) (Str t) (Str f) = js_findAll RegExp now (Str p) (Str t) (Str (new_Set f))"
    by (simp add: js_findAll_def default_arg_def js_try_repeated_flags[OF assms])
  from js_try_returns(3)[OF assms] obtain r where "js_replace_try RegExp now (Str p) (Str t) (Str rep) (Str f) = Inr r"
    by blast
  then show "js_replace RegExp now (Str p) (Str t) (Str rep) (Str f)
         = js_replace RegExp now (Str p) (Str t) (Str rep) (Str (new_Set f))"
    by (simp add: js_replace_def default_arg_def js_try_repeated_flags[OF assms])
qed

lemma js_echoed_flags:
  assumes "set f \<subseteq> set JS_SUPPORTED_FLAGS"
  shows "r_flags (js_test RegExp now (Str p) (Str t) (Str f)) = Str (new_Set f)"
    and "r_flags (js_findAll RegExp now (Str p) (Str t) (Str f))
         = Str (if CHR ''g'' \<in> set f then new_Set f else new_Set f @ ''g'')"
    and "rr_flags (js_replace RegExp now (Str p) (Str t) (Str rep) (Str f)) = Str (new_Set f)"
  by (simp_all add: js_test_def js_test_try_def js_findAll_def js_findAll_try_def js_replace_def
      js_replace_try_def default_arg_def js_flags_valid[OF assms] js_createResult_def Let_def
      new_Set_set
      split: sum.splits option.splits prod.splits)

lemma js_echoed_flags_distinct:
  "distinct (new_Set f)" "distinct (if CHR ''g'' \<in> set f then new_Set f else new_Set f @ ''g'')"
  by (simp_all add: new_Set_distinct new_Set_set)

lemma pcre_echoed_flags:
  assumes "set f \<subseteq> set PCRE_SUPPORTED_FLAGS" and "pe_initialized this" and "pe_pcre this = Some lib"
  shows "r_flags (pcre_test this now (Str p) (Str t) (Str f)) = Str (new_Set f)"
    and "r_flags (pcre_findAll this now (Str p) (Str t) (Str f)) = Str (new_Set f)"
proof -
  have i: "ensureInitialized this = Inr ()" using assms(2) by (simp add: ensureInitialized_def)
  have "\<exists>opts. convertFlags this (new_Set f) = Inr opts"
    unfolding convertFlags_def Let_def assms(3) by simp
  then obtain opts where c: "convertFlags this (new_Set f) = Inr opts" by blast
  show "r_flags (pcre_test this now (Str p) (Str t) (Str f)) = Str (new_Set f)"
    by (simp add: pcre_test_def pcre_test_try_def default_arg_def pcre_flags_valid[OF assms(1)] i c
        pcre_createResult_def split: sum.splits option.splits)
  show "r_flags (pcre_findAll this now (Str p) (Str t) (Str f)) = Str (new_Set f)"
    by (simp add: pcre_findAll_def pcre_findAll_try_def default_arg_def pcre_flags_valid[OF assms(1)] i c
        pcre_createResult_def split: sum.splits option.splits prod.splits)
qed

text \<open>
  C10. Repeated flags are to be deduplicated, with the result echoing each flag once
  and every operation behaving as with the distinct flags. Sanitization does remove the
  repetitions, keeping the first occurrences, and is idempotent (\<open>new_Set_distinct\<close>,
  \<open>new_Set_idem\<close>), and the JavaScript engine behaves so in all three operations
  (\<open>js_repeated_flags\<close>, \<open>js_echoed_flags\<close>), as do \<^verbatim>\<open>test\<close> and \<^verbatim>\<open>findAll\<close> of
  the PCRE engine (\<open>pcre_echoed_flags\<close>). In \<^verbatim>\<open>replace\<close> of the PCRE engine the timeout
  is thrown to the outermost \<^verbatim>\<open>catch\<close>, which echoes the flags as the caller gave
  them: with the flags \<^verbatim>\<open>gg\<close> and a first search that takes 20 s the result echoes
  \<^verbatim>\<open>gg\<close>, and \<^verbatim>\<open>g\<close> with the flags \<^verbatim>\<open>g\<close>. \<^verbatim>\<open>replace\<close> of the JavaScript engine
  catches its timeout in the inner \<^verbatim>\<open>catch\<close> and echoes \<^verbatim>\<open>g\<close> for \<^verbatim>\<open>gg\<close>.
\<close>

theorem pcre_replace_echoes_repeated_flags:
  "rr_flags (pcre_replace sample_PCREEngine (\<lambda>k. if k < 2 then 0 else 20000)
               (Str ''a'') (Str ''aaa'') (Str ''b'') (Str ''gg'')) = Str ''gg'' \<and>
   rr_flags (pcre_replace sample_PCREEngine (\<lambda>k. if k < 2 then 0 else 20000)
               (Str ''a'') (Str ''aaa'') (Str ''b'') (Str ''g'')) = Str ''g'' \<and>
   map_option e_message
     (rr_error (pcre_replace sample_PCREEngine (\<lambda>k. if k < 2 then 0 else 20000)
                  (Str ''a'') (Str ''aaa'') (Str ''b'') (Str ''gg'')))
     = Some ''PCRE replacement timeout - pattern may be too complex'' \<and>
   rr_flags (js_replace sample_RegExp (\<lambda>k. if k < 1 then 0 else 20000)
               (Str ''a'') (Str ''aaa'') (Str ''b'') (Str ''gg'')) = Str ''g'' \<and>
   map_option e_message
     (rr_error (js_replace sample_RegExp (\<lambda>k. if k < 1 then 0 else 20000)
                  (Str ''a'') (Str ''aaa'') (Str ''b'') (Str ''gg'')))
     = Some ''Regex replacement timeout - pattern may be too complex''"
  by code_simp

end
